theory Spec2Isabelle
  imports Main "HOL-Library.Word"
begin

section \<open>Data model of \<open>server/admin_server.go\<close>\<close>

text \<open>
  The admin server registers its routes on a gin engine and wraps every resource handler
  in a chain of middlewares. The collaborators it talks to (authentication, quota,
  locker, the resource handlers) are interfaces; they appear here as functions held by
  the records that the Go structs become. \<open>time.Duration\<close> is a signed 64-bit count
  of nanoseconds.
\<close>

type_synonym Duration = "64 word"

definition Second :: Duration where
  "Second = 1000000000"

definition DefaultAPICacheDuration :: Duration where
  "DefaultAPICacheDuration = Second * 2"

record AdminServerConfig =
  CacheEnable :: bool
  CacheDuration :: Duration

record PluginConfig =
  Functions :: "string list"
  Objects :: "string list"

record CloudConfig =
  AdminServer :: AdminServerConfig
  Plugin :: PluginConfig

text \<open>
  Modelled from the spec: the error values of package \<open>common\<close> (not part of this
  file). An error carries a code of the enumerated domain of the failure envelope and a
  message; \<open>common.Error code (Field "error" err)\<close> builds one around a cause.
\<close>

datatype Code =
    ErrRequestAccessDenied | ErrQuotaExceeded | ErrValidationFailed
  | ErrNotFound | ErrLockConflict | ErrInternal

datatype error = Error (code: Code) (message: string)

definition common_Error :: "Code \<Rightarrow> error \<Rightarrow> error" where
  "common_Error c err = Error c (message err)"

datatype httpMethod = GET | PUT | POST | DELETE

record Request =
  Method :: httpMethod
  RequestURI :: string
  Authorization :: string
  RequestID :: string
  Arrival :: int

text \<open>
  The handlers of package \<open>api\<close> are named by their Go names; the two closures
  of the \<open>sysconfig\<close> group are named after their paths.
\<close>

type_synonym api_fn = string

record cache_config =
  ginContextKeys :: "string list"
  withoutHeader :: bool
  withoutHeaderIgnore :: "string list"

text \<open>
  A \<open>gin.HandlerFunc\<close>: the handlers this file installs. An element of
  \<open>ExternalHandlers\<close> is opaque; it is modelled by what it decides (let the request
  pass, or reject it with an error).
\<close>

datatype handler =
    NoRouteHandler
  | NoMethodHandler
  | Health
  | RequestIDHandler
  | LoggerHandler
  | AuthHandler
  | External "Request \<Rightarrow> error option"
  | WrapperWithLock
  | WrapperRaw api_fn bool
  | NodeQuotaHandler
  | Wrapper api_fn
  | WCacheByRequestURI Duration handler cache_config

subsection \<open>The gin engine: groups and handler chains\<close>

text \<open>
  gin's \<open>RouterGroup\<close> holds the middlewares in force and a base path; the engine
  embeds the root group. \<open>Group\<close> copies the parent's handlers as they are at that
  moment, \<open>Use\<close> appends to a group, and registering a route stores the group's handlers
  followed by the route's own. gin's limit on the length of a chain and its panic on
  conflicting routes are outside this model; \<open>path.Join\<close> is modelled for paths without
  \<open>.\<close> and \<open>..\<close> segments, which is all this file registers.
\<close>

record Route =
  rMethod :: httpMethod
  rPath :: string
  rHandlers :: "handler list"

record RouterGroup =
  Handlers :: "handler list"
  basePath :: string

record Engine = RouterGroup +
  noRoute :: "handler list"
  noMethod :: "handler list"
  allNoRoute :: "handler list"
  allNoMethod :: "handler list"
  trees :: "Route list"

definition gin_New :: Engine where
  "gin_New = \<lparr>Handlers = [], basePath = ''/'', noRoute = [], noMethod = [],
     allNoRoute = [], allNoMethod = [], trees = []\<rparr>"

fun squeeze :: "string \<Rightarrow> string" where
  "squeeze (a # b # cs) =
     (if a = CHR ''/'' \<and> b = CHR ''/'' then squeeze (b # cs) else a # squeeze (b # cs))"
| "squeeze cs = cs"

definition path_Join :: "string \<Rightarrow> string \<Rightarrow> string" where
  "path_Join a r =
     (let p = squeeze (if a = [] then r else a @ ''/'' @ r)
      in if 1 < length p \<and> last p = CHR ''/'' then butlast p else p)"

definition joinPaths :: "string \<Rightarrow> string \<Rightarrow> string" where
  "joinPaths absolutePath relativePath =
     (if relativePath = [] then absolutePath
      else let finalPath = path_Join absolutePath relativePath
           in if last relativePath = CHR ''/'' \<and> last finalPath \<noteq> CHR ''/''
              then finalPath @ ''/'' else finalPath)"

definition root :: "Engine \<Rightarrow> RouterGroup" where
  "root e = \<lparr>Handlers = Handlers e, basePath = basePath e\<rparr>"

definition NoRoute :: "handler list \<Rightarrow> Engine \<Rightarrow> Engine" where
  "NoRoute hs e = e\<lparr>noRoute := hs, allNoRoute := Handlers e @ hs\<rparr>"

definition NoMethod :: "handler list \<Rightarrow> Engine \<Rightarrow> Engine" where
  "NoMethod hs e = e\<lparr>noMethod := hs, allNoMethod := Handlers e @ hs\<rparr>"

definition engine_Use :: "handler list \<Rightarrow> Engine \<Rightarrow> Engine" where
  "engine_Use hs e =
     e\<lparr>Handlers := Handlers e @ hs,
       allNoRoute := (Handlers e @ hs) @ noRoute e,
       allNoMethod := (Handlers e @ hs) @ noMethod e\<rparr>"

definition Group :: "RouterGroup \<Rightarrow> string \<Rightarrow> RouterGroup" where
  "Group g relativePath =
     \<lparr>Handlers = Handlers g, basePath = joinPaths (basePath g) relativePath\<rparr>"

definition group_Use :: "handler list \<Rightarrow> RouterGroup \<Rightarrow> RouterGroup" where
  "group_Use hs g = g\<lparr>Handlers := Handlers g @ hs\<rparr>"

definition handle :: "RouterGroup \<Rightarrow> httpMethod \<times> string \<times> handler list \<Rightarrow> Route" where
  "handle g = (\<lambda>(m, relativePath, hs).
     \<lparr>rMethod = m, rPath = joinPaths (basePath g) relativePath, rHandlers = Handlers g @ hs\<rparr>)"

text \<open>The calls \<open>g.GET(...)\<close>, \<open>g.PUT(...)\<close>, ... of one block, in order.\<close>

definition register :: "RouterGroup \<Rightarrow> (httpMethod \<times> string \<times> handler list) list \<Rightarrow> Engine \<Rightarrow> Engine" where
  "register g rs e = e\<lparr>trees := trees e @ map (handle g) rs\<rparr>"

subsection \<open>The server\<close>

text \<open>
  \<open>'c\<close> is the type of a \<open>plugin.QuotaCollector\<close>; a nil collector is \<open>None\<close>.
  Of \<open>api.API\<close> the server uses the node collector, the quota service's check, the
  locker and the resource handlers. A resource handler sees the request and the
  namespace of its context, may add response headers, and returns a payload or an error.
\<close>

record api_result =
  setHeaders :: "string \<rightharpoonup> string"
  result :: "error + string"

record 'c API =
  NodeNumberCollector :: "'c option"
  CheckQuota :: "string \<Rightarrow> 'c option \<Rightarrow> error option"
  Lock :: "string \<Rightarrow> error option"
  call :: "api_fn \<Rightarrow> string \<Rightarrow> Request \<Rightarrow> api_result"

record auth_result =
  resolved :: "string option"
  failure :: "error option"

text \<open>
  \<open>AdminServer\<close>: \<open>Auth\<close> is \<open>s.Auth.Authenticate\<close>; \<open>api\<close> is nil until \<open>SetAPI\<close>.
  The fields \<open>License\<close>, \<open>Quota\<close> and \<open>server\<close> are not used by the request pipeline;
  the contents of \<open>APICache\<close> and the output of \<open>log\<close> are part of the state a request
  runs in (below).
\<close>

record 'c AdminServer =
  Auth :: "Request \<Rightarrow> auth_result"
  ExternalHandlers :: "(Request \<Rightarrow> error option) list"
  cfg :: CloudConfig
  router :: Engine
  api :: "'c API option"

datatype panic = NilPointerDereference

text \<open>
  \<open>NewAdminServer\<close>: the three service constructors may fail; on success the server has
  a fresh engine, no external handlers and no api. It does not touch \<open>NodeCollector\<close>.
\<close>

definition NewAdminServer ::
  "(CloudConfig \<Rightarrow> error + (Request \<Rightarrow> auth_result)) \<Rightarrow> (CloudConfig \<Rightarrow> error option) \<Rightarrow>
   (CloudConfig \<Rightarrow> error option) \<Rightarrow> CloudConfig \<Rightarrow> error + 'c AdminServer" where
  "NewAdminServer NewAuthService NewLicenseService NewQuotaService config =
     (case NewAuthService config of
        Inl err \<Rightarrow> Inl err
      | Inr auth \<Rightarrow>
          (case NewLicenseService config of
             Some err \<Rightarrow> Inl err
           | None \<Rightarrow>
               (case NewQuotaService config of
                  Some err \<Rightarrow> Inl err
                | None \<Rightarrow>
                    Inr \<lparr>Auth = auth, ExternalHandlers = [], cfg = config,
                         router = gin_New, api = None\<rparr>)))"

definition SetAPI :: "'c API \<Rightarrow> 'c AdminServer \<Rightarrow> 'c AdminServer" where
  "SetAPI a s = s\<lparr>api := Some a\<rparr>"

definition WrapperCacheDuration :: "'c AdminServer \<Rightarrow> api_fn \<Rightarrow> Duration \<Rightarrow> handler" where
  "WrapperCacheDuration s handler dur =
     WCacheByRequestURI dur (Wrapper handler)
       \<lparr>ginContextKeys = [''namespace''], withoutHeader = True,
        withoutHeaderIgnore = [''Content-Type'']\<rparr>"

definition WrapperCache :: "'c AdminServer \<Rightarrow> api_fn \<Rightarrow> handler" where
  "WrapperCache s handler =
     (if CacheEnable (AdminServer (cfg s)) then
        (let dur = (if 0 <s CacheDuration (AdminServer (cfg s))
                    then CacheDuration (AdminServer (cfg s))
                    else DefaultAPICacheDuration)
         in WrapperCacheDuration s handler dur)
      else Wrapper handler)"

definition GetV1RouterGroup :: "'c AdminServer \<Rightarrow> RouterGroup" where
  "GetV1RouterGroup s =
     group_Use (map External (ExternalHandlers s))
       (group_Use [AuthHandler] (Group (root (router s)) ''v1''))"

definition GetV2RouterGroup :: "'c AdminServer \<Rightarrow> RouterGroup" where
  "GetV2RouterGroup s =
     group_Use (map External (ExternalHandlers s))
       (group_Use [AuthHandler] (Group (root (router s)) ''v2''))"

subsection \<open>\<open>InitRoute\<close>\<close>

text \<open>
  The package-level variable \<open>NodeCollector\<close> is the only global state of the file.
  Each block of \<open>InitRoute\<close> is the list of the routes it registers on its group, in
  the order of the source.
\<close>

record 'c globals =
  NodeCollector :: "'c option"

definition configs_routes :: "'c AdminServer \<Rightarrow> (httpMethod \<times> string \<times> handler list) list" where
  "configs_routes s =
    [(GET, ''/:name'', [WrapperCache s ''GetConfig'']),
     (PUT, ''/:name'', [WrapperWithLock, Wrapper ''UpdateConfig'']),
     (DELETE, ''/:name'', [WrapperRaw ''ValidateResourceForDeleting'' True, Wrapper ''DeleteConfig'']),
     (POST, [], [WrapperRaw ''ValidateResourceForCreating'' True, Wrapper ''CreateConfig'']),
     (GET, [], [WrapperCache s ''ListConfig'']),
     (GET, ''/:name/apps'', [Wrapper ''GetAppByConfig''])]"

definition registry_routes :: "'c AdminServer \<Rightarrow> (httpMethod \<times> string \<times> handler list) list" where
  "registry_routes s =
    [(GET, ''/:name'', [Wrapper ''GetRegistry'']),
     (PUT, ''/:name'', [Wrapper ''UpdateRegistry'']),
     (POST, ''/:name/refresh'', [Wrapper ''RefreshRegistryPassword'']),
     (DELETE, ''/:name'', [WrapperRaw ''ValidateResourceForDeleting'' True, Wrapper ''DeleteRegistry'']),
     (POST, [], [WrapperRaw ''ValidateResourceForCreating'' True, Wrapper ''CreateRegistry'']),
     (GET, [], [WrapperCache s ''ListRegistry'']),
     (GET, ''/:name/apps'', [Wrapper ''GetAppByRegistry''])]"

definition certificate_routes :: "'c AdminServer \<Rightarrow> (httpMethod \<times> string \<times> handler list) list" where
  "certificate_routes s =
    [(GET, ''/:name'', [Wrapper ''GetCertificate'']),
     (PUT, ''/:name'', [WrapperWithLock, Wrapper ''UpdateCertificate'']),
     (DELETE, ''/:name'', [WrapperRaw ''ValidateResourceForDeleting'' True, Wrapper ''DeleteCertificate'']),
     (POST, [], [WrapperRaw ''ValidateResourceForCreating'' True, Wrapper ''CreateCertificate'']),
     (GET, [], [WrapperCache s ''ListCertificate'']),
     (GET, ''/:name/apps'', [Wrapper ''GetAppByCertificate''])]"

definition secrets_routes :: "'c AdminServer \<Rightarrow> (httpMethod \<times> string \<times> handler list) list" where
  "secrets_routes s =
    [(GET, ''/:name'', [Wrapper ''GetSecret'']),
     (PUT, ''/:name'', [Wrapper ''UpdateSecret'']),
     (DELETE, ''/:name'', [WrapperRaw ''ValidateResourceForDeleting'' True, Wrapper ''DeleteSecret'']),
     (POST, [], [WrapperRaw ''ValidateResourceForCreating'' True, Wrapper ''CreateSecret'']),
     (GET, [], [WrapperCache s ''ListSecret'']),
     (GET, ''/:name/apps'', [Wrapper ''GetAppBySecret''])]"

definition nodes_routes :: "'c AdminServer \<Rightarrow> (httpMethod \<times> string \<times> handler list) list" where
  "nodes_routes s =
    [(GET, ''/:name'', [WrapperCache s ''GetNode'']),
     (PUT, [], [Wrapper ''GetNodes'']),
     (GET, ''/:name/apps'', [WrapperCache s ''GetAppByNode'']),
     (GET, ''/:name/functions'', [Wrapper ''GetFunctionsByNode'']),
     (GET, ''/:name/stats'', [WrapperCache s ''GetNodeStats'']),
     (PUT, ''/:name'', [WrapperWithLock, Wrapper ''UpdateNode'']),
     (DELETE, ''/:name'', [Wrapper ''DeleteNode'']),
     (POST, [], [WrapperWithLock, NodeQuotaHandler, Wrapper ''CreateNode'']),
     (GET, [], [WrapperCache s ''ListNode'']),
     (GET, ''/:name/deploys'', [WrapperCache s ''GetNodeDeployHistory'']),
     (GET, ''/:name/init'', [WrapperCache s ''GenInitCmdFromNode'']),
     (PUT, ''/:name/mode'', [Wrapper ''UpdateNodeMode'']),
     (PUT, ''/:name/properties'', [Wrapper ''UpdateNodeProperties'']),
     (GET, ''/:name/properties'', [WrapperCache s ''GetNodeProperties'']),
     (PUT, ''/:name/core/configs'', [Wrapper ''UpdateCoreApp'']),
     (GET, ''/:name/core/configs'', [WrapperCache s ''GetCoreAppConfigs'']),
     (GET, ''/:name/core/versions'', [WrapperCache s ''GetCoreAppVersions''])]"

definition apps_routes :: "'c AdminServer \<Rightarrow> (httpMethod \<times> string \<times> handler list) list" where
  "apps_routes s =
    [(GET, ''/:name'', [WrapperCache s ''GetApplication'']),
     (GET, ''/:name/configs'', [WrapperCache s ''GetSysAppConfigs'']),
     (GET, ''/:name/secrets'', [WrapperCache s ''GetSysAppSecrets'']),
     (GET, ''/:name/certificates'', [WrapperCache s ''GetSysAppCertificates'']),
     (GET, ''/:name/registries'', [WrapperCache s ''GetSysAppRegistries'']),
     (PUT, ''/:name'', [WrapperWithLock, Wrapper ''UpdateApplication'']),
     (DELETE, ''/:name'', [WrapperRaw ''ValidateResourceForDeleting'' True, Wrapper ''DeleteApplication'']),
     (POST, [], [WrapperRaw ''ValidateResourceForCreating'' True, WrapperWithLock,
                 Wrapper ''CreateApplication'']),
     (GET, [], [WrapperCache s ''ListApplication''])]"

definition namespace_routes :: "'c AdminServer \<Rightarrow> (httpMethod \<times> string \<times> handler list) list" where
  "namespace_routes s =
    [(POST, [], [Wrapper ''CreateNamespace'']),
     (GET, [], [WrapperCache s ''GetNamespace'']),
     (DELETE, [], [Wrapper ''DeleteNamespace''])]"

definition function_routes :: "'c AdminServer \<Rightarrow> (httpMethod \<times> string \<times> handler list) list" where
  "function_routes s =
    (GET, [], [Wrapper ''ListFunctionSources'']) #
    (if length (Functions (Plugin (cfg s))) \<noteq> 0 then
       [(GET, ''/:source/functions'', [Wrapper ''ListFunctions'']),
        (GET, ''/:source/functions/:name/versions'', [Wrapper ''ListFunctionVersions'']),
        (POST, ''/:source/functions/:name/versions/:version'', [Wrapper ''ImportFunction''])]
     else [])"

definition objects_routes :: "'c AdminServer \<Rightarrow> (httpMethod \<times> string \<times> handler list) list" where
  "objects_routes s =
    (GET, [], [Wrapper ''ListObjectSources'']) #
    (if length (Objects (Plugin (cfg s))) \<noteq> 0 then
       [(GET, ''/:source/buckets'', [Wrapper ''ListBuckets'']),
        (GET, ''/:source/buckets/:bucket/objects'', [Wrapper ''ListBucketObjects''])]
     else [])"

definition properties_routes :: "(httpMethod \<times> string \<times> handler list) list" where
  "properties_routes = [(GET, ''/:name'', [Wrapper ''GetProperty''])]"

definition sysconfig_routes :: "(httpMethod \<times> string \<times> handler list) list" where
  "sysconfig_routes =
    [(GET, ''/baetyl_version/latest'', [Wrapper ''sysconfig/baetyl_version/latest'']),
     (GET, ''/baetyl-function-runtime'', [Wrapper ''sysconfig/baetyl-function-runtime''])]"

definition module_routes :: "'c AdminServer \<Rightarrow> (httpMethod \<times> string \<times> handler list) list" where
  "module_routes s =
    [(GET, [], [WrapperCache s ''ListModules'']),
     (GET, ''/:name'', [WrapperCache s ''GetModules'']),
     (GET, ''/:name/version/:version'', [WrapperCache s ''GetModuleByVersion'']),
     (GET, ''/:name/latest'', [WrapperCache s ''GetLatestModule'']),
     (POST, [], [Wrapper ''CreateModule'']),
     (PUT, ''/:name/version/:version'', [Wrapper ''UpdateModule'']),
     (DELETE, ''/:name'', [Wrapper ''DeleteModules'']),
     (DELETE, ''/:name/version/:version'', [Wrapper ''DeleteModules''])]"

definition quotas_routes :: "'c AdminServer \<Rightarrow> (httpMethod \<times> string \<times> handler list) list" where
  "quotas_routes s = [(GET, [], [WrapperCache s ''GetQuota''])]"

definition yaml_routes :: "(httpMethod \<times> string \<times> handler list) list" where
  "yaml_routes =
    [(POST, [], [Wrapper ''CreateYamlResource'']),
     (PUT, [], [Wrapper ''UpdateYamlResource'']),
     (POST, ''/delete'', [Wrapper ''DeleteYamlResource''])]"

definition objectsV2_routes :: "'c AdminServer \<Rightarrow> (httpMethod \<times> string \<times> handler list) list" where
  "objectsV2_routes s =
    (GET, [], [WrapperCache s ''ListObjectSourcesV2'']) #
    (if length (Objects (Plugin (cfg s))) \<noteq> 0 then
       [(GET, ''/:source/buckets'', [Wrapper ''ListBucketsV2'']),
        (GET, ''/:source/buckets/:bucket/objects'', [Wrapper ''ListBucketObjectsV2'']),
        (GET, ''/:source/buckets/:bucket/object'', [Wrapper ''GetObjectPathV2'']),
        (GET, ''/:source/buckets/:bucket/object/put'', [Wrapper ''GetObjectPutPathV2''])]
     else [])"

text \<open>
  \<open>InitRoute\<close>. Reading \<open>s.api.NodeNumberCollector\<close> through a nil \<open>s.api\<close> panics. The
  v1 group is created after the two engine-wide middlewares are installed, the v2 group
  after the v1 routes are registered.
\<close>

definition InitRoute :: "'c AdminServer \<Rightarrow> 'c globals \<Rightarrow> panic + 'c AdminServer \<times> 'c globals" where
  "InitRoute s g =
     (let e = NoRoute [NoRouteHandler] (router s);
          e = NoMethod [NoMethodHandler] e;
          e = register (root e) [(GET, ''/health'', [Health])] e;
          e = engine_Use [RequestIDHandler] e;
          e = engine_Use [LoggerHandler] e
      in case api s of
           None \<Rightarrow> Inl NilPointerDereference
         | Some a \<Rightarrow>
            (let g = g\<lparr>NodeCollector := NodeNumberCollector a\<rparr>;
                 v1 = GetV1RouterGroup (s\<lparr>router := e\<rparr>);
                 e = register (Group v1 ''/configs'') (configs_routes s) e;
                 e = register (Group v1 ''/registries'') (registry_routes s) e;
                 e = register (Group v1 ''/certificates'') (certificate_routes s) e;
                 e = register (Group v1 ''/secrets'') (secrets_routes s) e;
                 e = register (Group v1 ''/nodes'') (nodes_routes s) e;
                 e = register (Group v1 ''/apps'') (apps_routes s) e;
                 e = register (Group v1 ''/namespace'') (namespace_routes s) e;
                 e = register (Group v1 ''/functions'') (function_routes s) e;
                 e = register (Group v1 ''/objects'') (objects_routes s) e;
                 e = register (Group v1 ''properties'') properties_routes e;
                 e = register (Group v1 ''sysconfig'') sysconfig_routes e;
                 e = register (Group v1 ''modules'') (module_routes s) e;
                 e = register (Group v1 ''/quotas'') (quotas_routes s) e;
                 e = register (Group v1 ''yaml'') yaml_routes e;
                 v2 = GetV2RouterGroup (s\<lparr>router := e\<rparr>);
                 e = register (Group v2 ''/objects'') (objectsV2_routes s) e
             in Inr (s\<lparr>router := e\<rparr>, g)))"

subsection \<open>A request in flight\<close>

text \<open>
  The state a handler chain runs in: gin's per-request context (the request, the keys
  set by middlewares, the abort flag, the response written so far), together with what
  the chain can touch outside the request: the log, the contents of \<open>s.APICache\<close> and
  the package-level variables. \<open>Events\<close> records each call to a collaborator, in order.
\<close>

datatype 'c event =
    Authenticate
  | ExternalCall
  | LockAcquire string
  | LockRelease string
  | QuotaCheck string "'c option"
  | ValidatorCall api_fn
  | ApiCall api_fn
  | CacheGet string
  | CacheSet string Duration

datatype log_field = Any string string | LogError error

type_synonym log_entry = "string \<times> log_field list"

datatype envelope = Success string | Failed Code string string

record cache_entry =
  payload :: string
  headers :: "string \<rightharpoonup> string"
  expiresAt :: int

record 'c Context =
  Req :: Request
  Keys :: "string \<rightharpoonup> string"
  Aborted :: bool
  Written :: "envelope option"
  Header :: "string \<rightharpoonup> string"
  Log :: "log_entry list"
  Events :: "'c event list"
  APICache :: "string \<rightharpoonup> cache_entry"
  Globals :: "'c globals"

definition NewContext :: "Request \<Rightarrow> (string \<rightharpoonup> cache_entry) \<Rightarrow> 'c globals \<Rightarrow> 'c Context" where
  "NewContext req store g =
     \<lparr>Req = req, Keys = Map.empty, Aborted = False, Written = None, Header = Map.empty,
      Log = [], Events = [], APICache = store, Globals = g\<rparr>"

text \<open>
  Modelled from the spec: the helpers of package \<open>common\<close> (not part of this file).
  \<open>GetNamespace\<close> and \<open>GetTrace\<close> read the request context; \<open>PopulateFailedResponse\<close>
  writes the failure envelope (error code, message, trace id) and aborts the chain when
  its flag is set; a successful handler result is written as the success envelope.
\<close>

definition GetString :: "'c Context \<Rightarrow> string \<Rightarrow> string" where
  "GetString c k = (case Keys c k of None \<Rightarrow> [] | Some v \<Rightarrow> v)"

definition GetNamespace :: "'c Context \<Rightarrow> string" where
  "GetNamespace c = GetString c ''namespace''"

definition GetTrace :: "'c Context \<Rightarrow> string \<times> string" where
  "GetTrace c = (''requestId'', GetString c ''requestId'')"

definition PopulateFailedResponse :: "'c Context \<Rightarrow> error \<Rightarrow> bool \<Rightarrow> 'c Context" where
  "PopulateFailedResponse c err abort =
     c\<lparr>Written := Some (Failed (code err) (message err) (snd (GetTrace c))),
       Header := (Header c)(''Content-Type'' \<mapsto> ''application/json; charset=utf-8''),
       Aborted := (Aborted c \<or> abort)\<rparr>"

definition PopulateSuccessResponse :: "'c Context \<Rightarrow> string \<Rightarrow> 'c Context" where
  "PopulateSuccessResponse c res =
     c\<lparr>Written := Some (Success res),
       Header := (Header c)(''Content-Type'' \<mapsto> ''application/json; charset=utf-8'')\<rparr>"

text \<open>
  Modelled from the spec: the handlers of package \<open>server\<close> that live in another file.
  \<open>RequestIDHandler\<close> attaches the trace id to the context, \<open>LoggerHandler\<close> writes an
  access log line; the health and not-found handlers answer at once.
\<close>

definition RequestIDHandler_body :: "'c Context \<Rightarrow> 'c Context" where
  "RequestIDHandler_body c = c\<lparr>Keys := (Keys c)(''requestId'' \<mapsto> RequestID (Req c))\<rparr>"

definition LoggerHandler_body :: "'c Context \<Rightarrow> 'c Context" where
  "LoggerHandler_body c =
     c\<lparr>Log := Log c @ [(''start request'', [Any ''url'' (RequestURI (Req c))])]\<rparr>"

definition Health_body :: "'c Context \<Rightarrow> 'c Context" where
  "Health_body c = PopulateSuccessResponse c []"

definition NoRouteHandler_body :: "'c Context \<Rightarrow> 'c Context" where
  "NoRouteHandler_body c = PopulateFailedResponse c (Error ErrNotFound ''no route'') False"

definition NoMethodHandler_body :: "'c Context \<Rightarrow> 'c Context" where
  "NoMethodHandler_body c = PopulateFailedResponse c (Error ErrNotFound ''no httpMethod'') False"

text \<open>An element of \<open>ExternalHandlers\<close>: passes, or rejects the request and aborts.\<close>

definition External_body :: "(Request \<Rightarrow> error option) \<Rightarrow> 'c Context \<Rightarrow> 'c Context" where
  "External_body f c =
     (let c = c\<lparr>Events := Events c @ [ExternalCall]\<rparr>
      in case f (Req c) of None \<Rightarrow> c | Some err \<Rightarrow> PopulateFailedResponse c err True)"

text \<open>\<open>AuthHandler\<close> and \<open>NodeQuotaHandler\<close>, from the source.\<close>

definition AuthHandler_body :: "'c AdminServer \<Rightarrow> 'c Context \<Rightarrow> 'c Context" where
  "AuthHandler_body s c =
     (let r = Auth s (Req c);
          cc = c\<lparr>Keys := (case resolved r of None \<Rightarrow> Keys c
                            | Some ns \<Rightarrow> (Keys c)(''namespace'' \<mapsto> ns)),
                 Events := Events c @ [Authenticate]\<rparr>
      in case failure r of
           None \<Rightarrow> cc
         | Some err \<Rightarrow>
             PopulateFailedResponse
               (cc\<lparr>Log := Log cc @
                  [(''request authenticate failed'',
                    [Any (fst (GetTrace cc)) (snd (GetTrace cc)),
                     Any ''namespace'' (GetNamespace cc),
                     Any ''authorization'' (Authorization (Req cc)),
                     LogError err])]\<rparr>)
               (common_Error ErrRequestAccessDenied err) True)"

definition NodeQuotaHandler_body :: "'c API \<Rightarrow> 'c Context \<Rightarrow> 'c Context" where
  "NodeQuotaHandler_body a c =
     (let namespace = GetNamespace c;
          collector = NodeCollector (Globals c);
          cc = c\<lparr>Events := Events c @ [QuotaCheck namespace collector]\<rparr>
      in case CheckQuota a namespace collector of
           None \<Rightarrow> cc
         | Some err \<Rightarrow>
             PopulateFailedResponse
               (cc\<lparr>Log := Log cc @
                  [(''quota out of limit'',
                    [Any (fst (GetTrace cc)) (snd (GetTrace cc)),
                     Any ''namespace'' (GetNamespace cc),
                     LogError err])]\<rparr>)
               err True)"

text \<open>
  Modelled from the spec: the wrappers of package \<open>common\<close> (not part of this file).
  \<open>Wrapper\<close> runs a resource handler and writes its result or its error as the envelope;
  \<open>WrapperRaw\<close> runs a validator and, on an error, writes the failure and aborts if its
  flag is set; \<open>WrapperWithLock\<close> acquires the lease named after the tenant and the
  resource, runs the rest of the chain and releases the lease on every exit; when the
  lease cannot be acquired it answers with the error and aborts.
\<close>

definition Wrapper_body :: "'c API \<Rightarrow> api_fn \<Rightarrow> 'c Context \<Rightarrow> 'c Context" where
  "Wrapper_body a h c =
     (let r = call a h (GetNamespace c) (Req c);
          cc = c\<lparr>Header := Header c ++ setHeaders r, Events := Events c @ [ApiCall h]\<rparr>
      in case result r of
           Inl err \<Rightarrow> PopulateFailedResponse cc err False
         | Inr res \<Rightarrow> PopulateSuccessResponse cc res)"

definition WrapperRaw_body :: "'c API \<Rightarrow> api_fn \<Rightarrow> bool \<Rightarrow> 'c Context \<Rightarrow> 'c Context" where
  "WrapperRaw_body a h abort c =
     (let r = call a h (GetNamespace c) (Req c);
          cc = c\<lparr>Header := Header c ++ setHeaders r, Events := Events c @ [ValidatorCall h]\<rparr>
      in case result r of
           Inl err \<Rightarrow> PopulateFailedResponse cc err abort
         | Inr res \<Rightarrow> cc)"

definition lockName :: "'c Context \<Rightarrow> string" where
  "lockName c = GetNamespace c @ ''_'' @ RequestURI (Req c)"

definition WrapperWithLock_body :: "'c API \<Rightarrow> ('c Context \<Rightarrow> 'c Context) \<Rightarrow> 'c Context \<Rightarrow> 'c Context" where
  "WrapperWithLock_body a next c =
     (case Lock a (lockName c) of
        Some err \<Rightarrow> PopulateFailedResponse c err True
      | None \<Rightarrow>
          (let c1 = next (c\<lparr>Events := Events c @ [LockAcquire (lockName c)]\<rparr>)
           in c1\<lparr>Events := Events c1 @ [LockRelease (lockName c)]\<rparr>))"

text \<open>
  Modelled from the spec: the response cache of the cache library (not part of this
  file), as configured by \<open>WrapperCacheDuration\<close>. The key is the concatenation of the
  request URI (path and query) and the values of the listed keys of the request context.
  A fresh entry is replayed without invoking the handler; on a miss the handler runs and
  its response is stored, with the time-to-live given, only if it succeeded. With
  \<open>withoutHeader\<close> the stored headers are the whitelisted ones only.
\<close>

definition cacheKey :: "cache_config \<Rightarrow> 'c Context \<Rightarrow> string" where
  "cacheKey cc c = RequestURI (Req c) @ concat (map (GetString c) (ginContextKeys cc))"

definition cachedHeaders :: "cache_config \<Rightarrow> (string \<rightharpoonup> string) \<Rightarrow> (string \<rightharpoonup> string)" where
  "cachedHeaders cc h = (if withoutHeader cc then h |` set (withoutHeaderIgnore cc) else h)"

definition fresh :: "cache_entry option \<Rightarrow> int \<Rightarrow> cache_entry option" where
  "fresh m now =
     (case m of None \<Rightarrow> None | Some e \<Rightarrow> if now < expiresAt e then Some e else None)"

definition WCacheByRequestURI_body ::
  "Duration \<Rightarrow> cache_config \<Rightarrow> ('c Context \<Rightarrow> 'c Context) \<Rightarrow> 'c Context \<Rightarrow> 'c Context" where
  "WCacheByRequestURI_body dur cc handler c =
     (let key = cacheKey cc c;
          c0 = c\<lparr>Events := Events c @ [CacheGet key]\<rparr>
      in case fresh (APICache c key) (Arrival (Req c)) of
           Some e \<Rightarrow> c0\<lparr>Written := Some (Success (payload e)), Header := Header c0 ++ headers e\<rparr>
         | None \<Rightarrow>
             (let c1 = handler c0
              in case Written c1 of
                   Some (Success res) \<Rightarrow>
                     if Aborted c1 then c1
                     else c1\<lparr>APICache := (APICache c1)(key \<mapsto>
                                 \<lparr>payload = res, headers = cachedHeaders cc (Header c1),
                                  expiresAt = Arrival (Req c) + sint dur\<rparr>),
                             Events := Events c1 @ [CacheSet key dur]\<rparr>
                 | _ \<Rightarrow> c1))"

subsection \<open>Running a handler chain\<close>

text \<open>
  \<open>serve\<close> is one handler called on the context. \<open>run\<close> is gin's \<open>Next\<close>: the handlers
  of the chain are called in order, and none is called once the context is aborted.
  \<open>WrapperWithLock\<close> calls \<open>Next\<close> itself, so the rest of the chain runs inside it.
\<close>

fun serve :: "'c AdminServer \<Rightarrow> 'c API \<Rightarrow> handler \<Rightarrow> 'c Context \<Rightarrow> 'c Context" where
  "serve s a NoRouteHandler c = NoRouteHandler_body c"
| "serve s a NoMethodHandler c = NoMethodHandler_body c"
| "serve s a Health c = Health_body c"
| "serve s a RequestIDHandler c = RequestIDHandler_body c"
| "serve s a LoggerHandler c = LoggerHandler_body c"
| "serve s a AuthHandler c = AuthHandler_body s c"
| "serve s a (External f) c = External_body f c"
| "serve s a WrapperWithLock c = WrapperWithLock_body a (\<lambda>c. c) c"
| "serve s a (WrapperRaw h abort) c = WrapperRaw_body a h abort c"
| "serve s a NodeQuotaHandler c = NodeQuotaHandler_body a c"
| "serve s a (Wrapper h) c = Wrapper_body a h c"
| "serve s a (WCacheByRequestURI dur h cc) c = WCacheByRequestURI_body dur cc (serve s a h) c"

fun run :: "'c AdminServer \<Rightarrow> 'c API \<Rightarrow> handler list \<Rightarrow> 'c Context \<Rightarrow> 'c Context" where
  "run s a [] c = c"
| "run s a (h # hs) c =
     (if Aborted c then c
      else case h of
             WrapperWithLock \<Rightarrow> WrapperWithLock_body a (run s a hs) c
           | _ \<Rightarrow> run s a hs (serve s a h c))"

text \<open>The chain registered for an HTTP verb and a route path.\<close>

definition lookup :: "Engine \<Rightarrow> httpMethod \<Rightarrow> string \<Rightarrow> handler list option" where
  "lookup e m p = map_option rHandlers (find (\<lambda>r. rMethod r = m \<and> rPath r = p) (trees e))"

subsection \<open>Names used in the statements\<close>

text \<open>
  The middlewares every route of the v1 and v2 groups starts with, and the group a block
  of \<open>InitRoute\<close> registers on.
\<close>

definition groupHandlers :: "'c AdminServer \<Rightarrow> handler list" where
  "groupHandlers s =
     [RequestIDHandler, LoggerHandler, AuthHandler] @ map External (ExternalHandlers s)"

definition grp :: "'c AdminServer \<Rightarrow> string \<Rightarrow> RouterGroup" where
  "grp s p = \<lparr>Handlers = groupHandlers s, basePath = p\<rparr>"

text \<open>The routes \<open>InitRoute\<close> leaves on a fresh engine, block by block.\<close>

definition routeTable :: "'c AdminServer \<Rightarrow> Route list" where
  "routeTable s =
     map (handle \<lparr>Handlers = [], basePath = ''/''\<rparr>) [(GET, ''/health'', [Health])] @
     map (handle (grp s ''/v1/configs'')) (configs_routes s) @
     map (handle (grp s ''/v1/registries'')) (registry_routes s) @
     map (handle (grp s ''/v1/certificates'')) (certificate_routes s) @
     map (handle (grp s ''/v1/secrets'')) (secrets_routes s) @
     map (handle (grp s ''/v1/nodes'')) (nodes_routes s) @
     map (handle (grp s ''/v1/apps'')) (apps_routes s) @
     map (handle (grp s ''/v1/namespace'')) (namespace_routes s) @
     map (handle (grp s ''/v1/functions'')) (function_routes s) @
     map (handle (grp s ''/v1/objects'')) (objects_routes s) @
     map (handle (grp s ''/v1/properties'')) properties_routes @
     map (handle (grp s ''/v1/sysconfig'')) sysconfig_routes @
     map (handle (grp s ''/v1/modules'')) (module_routes s) @
     map (handle (grp s ''/v1/quotas'')) (quotas_routes s) @
     map (handle (grp s ''/v1/yaml'')) yaml_routes @
     map (handle (grp s ''/v2/objects'')) (objectsV2_routes s)"

text \<open>
  A server for the concrete runs below: caching on, no plugin sources; two tokens
  resolve to the tenants \<open>ns-a\<close> and \<open>ns-b\<close>, and \<open>ns-b\<close> is over its quota. Every
  resource handler answers with its own name and sets a request-id header.
\<close>

definition exampleConfig :: CloudConfig where
  "exampleConfig =
     \<lparr>AdminServer = \<lparr>CacheEnable = True, CacheDuration = 0\<rparr>,
      Plugin = \<lparr>Functions = [], Objects = []\<rparr>\<rparr>"

definition exampleAPI :: "nat API" where
  "exampleAPI =
     \<lparr>NodeNumberCollector = Some 1,
      CheckQuota = (\<lambda>ns col. if ns = ''ns-b'' then Some (Error ErrQuotaExceeded ''quota out of limit'')
                             else None),
      Lock = (\<lambda>name. None),
      call = (\<lambda>h ns req. \<lparr>setHeaders = [''X-Request-Id'' \<mapsto> RequestID req],
                               result = Inr h\<rparr>)\<rparr>"

definition exampleServer :: "nat AdminServer" where
  "exampleServer =
     \<lparr>Auth = (\<lambda>req. if Authorization req = ''token-a'' then \<lparr>resolved = Some ''ns-a'', failure = None\<rparr>
                     else if Authorization req = ''token-b'' then \<lparr>resolved = Some ''ns-b'', failure = None\<rparr>
                     else \<lparr>resolved = None, failure = Some (Error ErrInternal ''bad token'')\<rparr>),
      ExternalHandlers = [], cfg = exampleConfig, router = gin_New, api = Some exampleAPI\<rparr>"

definition exampleRequest :: "httpMethod \<Rightarrow> string \<Rightarrow> string \<Rightarrow> Request" where
  "exampleRequest m uri token =
     \<lparr>Method = m, RequestURI = uri, Authorization = token, RequestID = ''t1'', Arrival = 0\<rparr>"

text \<open>
  The routes a server has after \<open>InitRoute\<close>, the routes among them that carry the lock
  wrapper, and a request served on the route registered for a httpMethod and a route path:
  the routes are initialised, the chain of the route is looked up and run on a new
  context.
\<close>

definition routesOf :: "'c AdminServer \<Rightarrow> Route list" where
  "routesOf s =
     (case InitRoute s \<lparr>NodeCollector = None\<rparr> of
        Inl p \<Rightarrow> []
      | Inr (s', g') \<Rightarrow> trees (router s'))"

definition lockedRoutes :: "Route list \<Rightarrow> (httpMethod \<times> string) list" where
  "lockedRoutes rs =
     map (\<lambda>r. (rMethod r, rPath r)) (filter (\<lambda>r. WrapperWithLock \<in> set (rHandlers r)) rs)"


text \<open>
  The stage of the pipeline a handler belongs to: authentication, lock, quota check,
  terminal handler (with or without the cache around it). The other handlers are not
  stages. \<open>stages\<close> lists the stages of a chain in the order of the chain.
\<close>

fun stage :: "handler \<Rightarrow> nat option" where
  "stage AuthHandler = Some 0"
| "stage WrapperWithLock = Some 1"
| "stage NodeQuotaHandler = Some 2"
| "stage (Wrapper h) = Some 3"
| "stage (WCacheByRequestURI dur h cc) = Some 3"
| "stage h = None"

definition stages :: "handler list \<Rightarrow> nat list" where
  "stages hs = List.map_filter stage hs"


text \<open>The options \<open>WrapperCacheDuration\<close> passes to the cache, and the state of the package variables when the program starts.\<close>

definition apiCacheOptions :: cache_config where
  "apiCacheOptions =
     \<lparr>ginContextKeys = [''namespace''], withoutHeader = True,
      withoutHeaderIgnore = [''Content-Type'']\<rparr>"

definition initGlobals :: "'c globals" where
  "initGlobals = \<lparr>NodeCollector = None\<rparr>"

text \<open>The namespace the authentication resolves for a request, as \<open>GetNamespace\<close> reads it afterwards.\<close>

definition resolvedNamespace :: "'c AdminServer \<Rightarrow> Request \<Rightarrow> string" where
  "resolvedNamespace s req = (case resolved (Auth s req) of None \<Rightarrow> [] | Some ns \<Rightarrow> ns)"

text \<open>
  Variants of the example server: another cache configuration, and a second server whose
  api carries another node collector.
\<close>

definition exampleServerWith :: "bool \<Rightarrow> Duration \<Rightarrow> nat AdminServer" where
  "exampleServerWith enable dur =
     exampleServer\<lparr>cfg := exampleConfig\<lparr>AdminServer := \<lparr>CacheEnable = enable, CacheDuration = dur\<rparr>\<rparr>\<rparr>"

definition otherAPI :: "nat API" where
  "otherAPI = exampleAPI\<lparr>NodeNumberCollector := Some 2\<rparr>"

text \<open>
  The stage of the pipeline a collaborator call belongs to: the authentication, the
  acquisition of the lock, the quota check, the call of the terminal handler. The calls
  of external handlers and validators, the release of the lock and the cache accesses
  are not stages. \<open>stageTrace\<close> lists the stages of a run in the order of its events.
\<close>

fun eventStage :: "'c event \<Rightarrow> nat option" where
  "eventStage Authenticate = Some 0"
| "eventStage (LockAcquire n) = Some 1"
| "eventStage (QuotaCheck ns col) = Some 2"
| "eventStage (ApiCall h) = Some 3"
| "eventStage e = None"

definition stageTrace :: "'c event list \<Rightarrow> nat list" where
  "stageTrace es = List.map_filter eventStage es"

text \<open>
  The chains \<open>InitRoute\<close> builds: the cache wrapper, when there is one, is around a
  plain wrapper and stands last.
\<close>

fun simpleHandler :: "handler \<Rightarrow> bool" where
  "simpleHandler (WCacheByRequestURI dur h cc) = False"
| "simpleHandler h = True"

fun terminalHandler :: "handler \<Rightarrow> bool" where
  "terminalHandler (WCacheByRequestURI dur (Wrapper h) cc) = True"
| "terminalHandler (WCacheByRequestURI dur h cc) = False"
| "terminalHandler h = True"

fun okChain :: "handler list \<Rightarrow> bool" where
  "okChain [] = True"
| "okChain [h] = terminalHandler h"
| "okChain (h # hs) = (simpleHandler h \<and> okChain hs)"

section \<open>Properties\<close>

subsection \<open>What \<open>InitRoute\<close> registers\<close>

lemma trees_register: "trees (register g rs e) = trees e @ map (handle g) rs"
  by (simp add: register_def)

lemma root_register: "root (register g rs e) = root e"
  by (simp add: register_def root_def)

lemma allNoRoute_register: "allNoRoute (register g rs e) = allNoRoute e"
  by (simp add: register_def)

lemma allNoMethod_register: "allNoMethod (register g rs e) = allNoMethod e"
  by (simp add: register_def)

lemma root_prelude:
  "root (engine_Use [LoggerHandler] (engine_Use [RequestIDHandler]
     (register g0 rs (NoMethod [NoMethodHandler] (NoRoute [NoRouteHandler] gin_New))))) =
   \<lparr>Handlers = [RequestIDHandler, LoggerHandler], basePath = ''/''\<rparr>"
  by (simp add: root_def engine_Use_def register_def NoMethod_def NoRoute_def gin_New_def)

lemma trees_prelude:
  "trees (engine_Use [LoggerHandler] (engine_Use [RequestIDHandler]
     (register (root (NoMethod [NoMethodHandler] (NoRoute [NoRouteHandler] gin_New))) rs
        (NoMethod [NoMethodHandler] (NoRoute [NoRouteHandler] gin_New))))) =
   map (handle \<lparr>Handlers = [], basePath = ''/''\<rparr>) rs"
  by (simp add: root_def engine_Use_def register_def NoMethod_def NoRoute_def gin_New_def)

lemma allNo_prelude:
  "allNoRoute (engine_Use [LoggerHandler] (engine_Use [RequestIDHandler]
     (register g0 rs (NoMethod [NoMethodHandler] (NoRoute [NoRouteHandler] gin_New))))) =
   [RequestIDHandler, LoggerHandler, NoRouteHandler]"
  "allNoMethod (engine_Use [LoggerHandler] (engine_Use [RequestIDHandler]
     (register g0 rs (NoMethod [NoMethodHandler] (NoRoute [NoRouteHandler] gin_New))))) =
   [RequestIDHandler, LoggerHandler, NoMethodHandler]"
  by (simp_all add: engine_Use_def register_def NoMethod_def NoRoute_def gin_New_def)

lemma Group_v1:
  "Group (group_Use (map External xs) (group_Use [AuthHandler]
      (Group \<lparr>Handlers = [RequestIDHandler, LoggerHandler], basePath = ''/''\<rparr> ''v1''))) p =
   \<lparr>Handlers = [RequestIDHandler, LoggerHandler, AuthHandler] @ map External xs,
    basePath = joinPaths ''/v1'' p\<rparr>"
  by (simp add: Group_def group_Use_def joinPaths_def path_Join_def)

lemma Group_v2:
  "Group (group_Use (map External xs) (group_Use [AuthHandler]
      (Group \<lparr>Handlers = [RequestIDHandler, LoggerHandler], basePath = ''/''\<rparr> ''v2''))) p =
   \<lparr>Handlers = [RequestIDHandler, LoggerHandler, AuthHandler] @ map External xs,
    basePath = joinPaths ''/v2'' p\<rparr>"
  by (simp add: Group_def group_Use_def joinPaths_def path_Join_def)

lemma group_paths:
  "joinPaths ''/v1'' ''/configs'' = ''/v1/configs''"
  "joinPaths ''/v1'' ''/registries'' = ''/v1/registries''"
  "joinPaths ''/v1'' ''/certificates'' = ''/v1/certificates''"
  "joinPaths ''/v1'' ''/secrets'' = ''/v1/secrets''"
  "joinPaths ''/v1'' ''/nodes'' = ''/v1/nodes''"
  "joinPaths ''/v1'' ''/apps'' = ''/v1/apps''"
  "joinPaths ''/v1'' ''/namespace'' = ''/v1/namespace''"
  "joinPaths ''/v1'' ''/functions'' = ''/v1/functions''"
  "joinPaths ''/v1'' ''/objects'' = ''/v1/objects''"
  "joinPaths ''/v1'' ''properties'' = ''/v1/properties''"
  "joinPaths ''/v1'' ''sysconfig'' = ''/v1/sysconfig''"
  "joinPaths ''/v1'' ''modules'' = ''/v1/modules''"
  "joinPaths ''/v1'' ''/quotas'' = ''/v1/quotas''"
  "joinPaths ''/v1'' ''yaml'' = ''/v1/yaml''"
  "joinPaths ''/v2'' ''/objects'' = ''/v2/objects''"
  by (simp_all add: joinPaths_def path_Join_def)

lemma InitRoute_Some:
  assumes "router s = gin_New" and "api s = Some a"
  shows "\<exists>e. InitRoute s g = Inr (s\<lparr>router := e\<rparr>, g\<lparr>NodeCollector := NodeNumberCollector a\<rparr>) \<and>
    allNoRoute e = [RequestIDHandler, LoggerHandler, NoRouteHandler] \<and>
    allNoMethod e = [RequestIDHandler, LoggerHandler, NoMethodHandler] \<and>
    trees e = routeTable s"
  unfolding InitRoute_def Let_def assms option.case routeTable_def
  apply (rule exI, rule conjI, rule refl)
  apply (simp add: trees_register root_register allNoRoute_register allNoMethod_register
     GetV1RouterGroup_def GetV2RouterGroup_def root_prelude trees_prelude allNo_prelude
     Group_v1 Group_v2 group_paths grp_def groupHandlers_def del: map_map)
  done

lemma InitRoute_None: "api s = None \<Longrightarrow> InitRoute s g = Inl NilPointerDereference"
  unfolding InitRoute_def Let_def by simp

lemma InitRoute_Inr:
  assumes "router s = gin_New" and "InitRoute s g = Inr (s', g')"
  shows "\<exists>a e. api s = Some a \<and> s' = s\<lparr>router := e\<rparr> \<and>
    g' = g\<lparr>NodeCollector := NodeNumberCollector a\<rparr> \<and>
    allNoRoute e = [RequestIDHandler, LoggerHandler, NoRouteHandler] \<and>
    allNoMethod e = [RequestIDHandler, LoggerHandler, NoMethodHandler] \<and>
    trees e = routeTable s"
proof (cases "api s")
  case None
  with assms(2) show ?thesis by (simp add: InitRoute_None)
next
  case (Some a)
  from InitRoute_Some [OF assms(1) Some, of g] assms(2) Some show ?thesis by auto
qed

lemma InitRoute_trees:
  assumes "router s = gin_New" and "InitRoute s g = Inr (s', g')"
  shows "trees (router s') = routeTable s"
  using InitRoute_Inr [OF assms] by auto

lemma router_exampleServer: "router exampleServer = gin_New"
  by (simp add: exampleServer_def)

lemma api_exampleServer: "api exampleServer = Some exampleAPI"
  by (simp add: exampleServer_def)

lemma routesOf_exampleServer: "routesOf exampleServer = routeTable exampleServer"
  using InitRoute_Some [OF router_exampleServer api_exampleServer, of "\<lparr>NodeCollector = None\<rparr>"]
  by (auto simp: routesOf_def)

lemma WrapperCache_neq [simp]:
  "WrapperCache s h \<noteq> WrapperWithLock" "WrapperCache s h \<noteq> AuthHandler"
  "WrapperCache s h \<noteq> NodeQuotaHandler"
  "WrapperWithLock \<noteq> WrapperCache s h" "AuthHandler \<noteq> WrapperCache s h"
  "NodeQuotaHandler \<noteq> WrapperCache s h"
  by (simp_all add: WrapperCache_def WrapperCacheDuration_def Let_def)

lemma lock_notin_group: "WrapperWithLock \<notin> set (groupHandlers s)"
  by (auto simp: groupHandlers_def)

lemma rHandlers_handle: "rHandlers (handle G (m, q, hs)) = Handlers G @ hs"
  by (simp add: handle_def)

lemma rPath_handle: "rPath (handle G (m, q, hs)) = joinPaths (basePath G) q"
  by (simp add: handle_def)

lemma rMethod_handle: "rMethod (handle G (m, q, hs)) = m"
  by (simp add: handle_def)

lemma Handlers_grp: "Handlers (grp s p) = groupHandlers s"
  by (simp add: grp_def)

lemma basePath_grp: "basePath (grp s p) = p"
  by (simp add: grp_def)

lemmas block_defs = configs_routes_def registry_routes_def certificate_routes_def
  secrets_routes_def nodes_routes_def apps_routes_def namespace_routes_def
  function_routes_def objects_routes_def properties_routes_def sysconfig_routes_def
  module_routes_def quotas_routes_def yaml_routes_def objectsV2_routes_def

subsection \<open>Routes that take the lock\<close>

lemma lockedRoutes_routeTable:
  "lockedRoutes (routeTable s) =
   [(PUT, ''/v1/configs/:name''), (PUT, ''/v1/certificates/:name''),
    (PUT, ''/v1/nodes/:name''), (POST, ''/v1/nodes''),
    (PUT, ''/v1/apps/:name''), (POST, ''/v1/apps'')]"
  unfolding routeTable_def block_defs lockedRoutes_def
  apply (simp add: rHandlers_handle Handlers_grp lock_notin_group)
  apply (simp add: rPath_handle rMethod_handle basePath_grp joinPaths_def path_Join_def)
  done

text \<open>
  C5, as the code has it: after \<open>InitRoute\<close> on a fresh engine, the routes whose chain
  contains the lock wrapper are exactly six, in registration order: update config,
  update certificate, update node, create node, update application and create
  application. This holds for every configuration and every list of external handlers.
\<close>

theorem lock_routes_exact:
  assumes "router s = gin_New" and "InitRoute s g = Inr (s', g')"
  shows "lockedRoutes (trees (router s')) =
   [(PUT, ''/v1/configs/:name''), (PUT, ''/v1/certificates/:name''),
    (PUT, ''/v1/nodes/:name''), (POST, ''/v1/nodes''),
    (PUT, ''/v1/apps/:name''), (POST, ''/v1/apps'')]"
  using InitRoute_trees [OF assms] by (simp add: lockedRoutes_routeTable)

theorem lock_routes_exact_witness:
  "\<exists>s' g'. router exampleServer = gin_New \<and>
     InitRoute exampleServer \<lparr>NodeCollector = None\<rparr> = Inr (s', g') \<and>
     lockedRoutes (trees (router s')) =
       [(PUT, ''/v1/configs/:name''), (PUT, ''/v1/certificates/:name''),
        (PUT, ''/v1/nodes/:name''), (POST, ''/v1/nodes''),
        (PUT, ''/v1/apps/:name''), (POST, ''/v1/apps'')]"
proof -
  obtain e where init: "InitRoute exampleServer \<lparr>NodeCollector = None\<rparr> =
      Inr (exampleServer\<lparr>router := e\<rparr>, \<lparr>NodeCollector = None\<rparr>\<lparr>NodeCollector := NodeNumberCollector exampleAPI\<rparr>)"
    using InitRoute_Some [OF router_exampleServer api_exampleServer] by blast
  from lock_routes_exact [OF router_exampleServer init] router_exampleServer init
  show ?thesis by blast
qed

text \<open>
  C5 as stated fails: the claim lists four routes and no other, but the routes that
  update a certificate and that create a node take the lock as well.
\<close>

theorem lock_routes_counterexample:
  "(PUT, ''/v1/certificates/:name'') \<in> set (lockedRoutes (routesOf exampleServer)) \<and>
   (POST, ''/v1/nodes'') \<in> set (lockedRoutes (routesOf exampleServer)) \<and>
   lockedRoutes (routesOf exampleServer) \<noteq>
     [(PUT, ''/v1/configs/:name''), (PUT, ''/v1/nodes/:name''),
      (PUT, ''/v1/apps/:name''), (POST, ''/v1/apps'')]"
  by (simp add: routesOf_exampleServer lockedRoutes_routeTable)

subsection \<open>Running a chain: general facts\<close>

lemmas body_defs = NoRouteHandler_body_def NoMethodHandler_body_def Health_body_def
  RequestIDHandler_body_def LoggerHandler_body_def External_body_def AuthHandler_body_def
  NodeQuotaHandler_body_def Wrapper_body_def WrapperRaw_body_def WrapperWithLock_body_def
  PopulateFailedResponse_def PopulateSuccessResponse_def

lemma run_Aborted: "Aborted c \<Longrightarrow> run s a hs c = c"
  by (cases hs) simp_all

lemma Aborted_cache:
  assumes "\<And>c. Aborted c \<Longrightarrow> Aborted (f c)"
  shows "Aborted c \<Longrightarrow> Aborted (WCacheByRequestURI_body dur cc f c)"
  using assms [of "c\<lparr>Events := Events c @ [CacheGet (cacheKey cc c)]\<rparr>"]
  by (simp add: WCacheByRequestURI_body_def Let_def fresh_def
      split: option.splits envelope.splits)

lemma Events_cache:
  assumes "\<And>c. \<exists>es. Events (f c) = Events c @ es"
  shows "\<exists>es. Events (WCacheByRequestURI_body dur cc f c) = Events c @ es"
proof -
  obtain es where "Events (f (c\<lparr>Events := Events c @ [CacheGet (cacheKey cc c)]\<rparr>)) =
      (Events c @ [CacheGet (cacheKey cc c)]) @ es"
    using assms [of "c\<lparr>Events := Events c @ [CacheGet (cacheKey cc c)]\<rparr>"] by auto
  then show ?thesis
    by (simp add: WCacheByRequestURI_body_def Let_def fresh_def
      split: option.splits envelope.splits)
qed

lemma Events_serve: "\<exists>es. Events (serve s a h c) = Events c @ es"
proof (induction h arbitrary: c)
  case (WCacheByRequestURI dur h cc)
  then show ?case by (simp add: Events_cache)
qed (simp_all add: body_defs Let_def split: option.splits sum.splits)

lemma Events_run: "\<exists>es. Events (run s a hs c) = Events c @ es"
proof (induction hs arbitrary: c)
  case Nil
  show ?case by simp
next
  case (Cons h hs)
  show ?case
  proof (cases "Aborted c")
    case True
    then show ?thesis by simp
  next
    case False
    show ?thesis
    proof (cases "h = WrapperWithLock")
      case True
      obtain es where "Events (run s a hs (c\<lparr>Events := Events c @ [LockAcquire (lockName c)]\<rparr>)) =
         (Events c @ [LockAcquire (lockName c)]) @ es"
        using Cons.IH [of "c\<lparr>Events := Events c @ [LockAcquire (lockName c)]\<rparr>"] by auto
      with True False show ?thesis
        by (simp add: WrapperWithLock_body_def PopulateFailedResponse_def Let_def split: option.splits)
    next
      case nl: False
      obtain es1 where e1: "Events (serve s a h c) = Events c @ es1"
        using Events_serve by blast
      obtain es2 where "Events (run s a hs (serve s a h c)) = Events (serve s a h c) @ es2"
        using Cons.IH by blast
      with e1 have "Events (run s a hs (serve s a h c)) = Events c @ es1 @ es2" by simp
      moreover have "run s a (h # hs) c = run s a hs (serve s a h c)"
        using False nl by (cases h) simp_all
      ultimately show ?thesis by simp
    qed
  qed
qed

lemma run_append_Aborted:
  "Aborted (run s a xs c) \<Longrightarrow> run s a (xs @ ys) c = run s a xs c"
proof (induction xs arbitrary: c)
  case Nil
  then show ?case by (simp add: run_Aborted)
next
  case (Cons h xs)
  show ?case
  proof (cases "Aborted c")
    case True
    then show ?thesis by simp
  next
    case False
    show ?thesis
    proof (cases "h = WrapperWithLock")
      case True
      show ?thesis
      proof (cases "Lock a (lockName c)")
        case None
        with True False Cons.prems
        have "Aborted (run s a xs (c\<lparr>Events := Events c @ [LockAcquire (lockName c)]\<rparr>))"
          by (simp add: WrapperWithLock_body_def Let_def)
        from Cons.IH [OF this] None True False show ?thesis
          by (simp add: WrapperWithLock_body_def Let_def)
      next
        case (Some err)
        with True False show ?thesis by (simp add: WrapperWithLock_body_def)
      qed
    next
      case nl: False
      have step: "\<And>zs. run s a (h # zs) c = run s a zs (serve s a h c)"
        using False nl by (cases h) simp_all
      from Cons.prems have "Aborted (run s a xs (serve s a h c))" by (simp only: step)
      from Cons.IH [OF this] show ?thesis using step [of "xs @ ys"] step [of xs] by simp
    qed
  qed
qed

subsection \<open>The shape of the registered routes\<close>

lemma in_routeTable_cases:
  assumes "r \<in> set (routeTable s)"
  shows "r = handle \<lparr>Handlers = [], basePath = ''/''\<rparr> (GET, ''/health'', [Health]) \<or>
         (\<exists>hs. rHandlers r = groupHandlers s @ hs)"
  using assms unfolding routeTable_def
  by (auto simp: handle_def grp_def)

lemma health_route:
  "handle \<lparr>Handlers = [], basePath = ''/''\<rparr> (GET, ''/health'', [Health]) =
   \<lparr>rMethod = GET, rPath = ''/health'', rHandlers = [Health]\<rparr>"
  by (simp add: handle_def joinPaths_def path_Join_def)

lemma squeeze_Nil_iff: "squeeze xs = [] \<longleftrightarrow> xs = []"
  by (induction xs rule: squeeze.induct) auto

lemma take4_joinPaths:
  assumes "e \<noteq> CHR ''/''" and "v \<noteq> CHR ''/''" and "n \<noteq> CHR ''/''"
  shows "take 4 (joinPaths (CHR ''/'' # v # n # CHR ''/'' # e # p) q) = [CHR ''/'', v, n, CHR ''/'']"
proof (cases "q = []")
  case True
  then show ?thesis by (simp add: joinPaths_def)
next
  case False
  define y where "y = squeeze (e # p @ CHR ''/'' # q)"
  have y: "y \<noteq> []" by (simp add: y_def squeeze_Nil_iff)
  have sq: "squeeze (CHR ''/'' # v # n # CHR ''/'' # e # p @ CHR ''/'' # q) =
      CHR ''/'' # v # n # CHR ''/'' # y"
    using assms by (simp add: y_def)
  have t4: "take 4 (path_Join (CHR ''/'' # v # n # CHR ''/'' # e # p) q) = [CHR ''/'', v, n, CHR ''/'']"
    using y by (simp add: path_Join_def sq Let_def del: squeeze.simps)
  then have "length (take 4 (path_Join (CHR ''/'' # v # n # CHR ''/'' # e # p) q)) = 4"
    by simp
  then have "4 \<le> length (path_Join (CHR ''/'' # v # n # CHR ''/'' # e # p) q)"
    by simp
  with t4 False show ?thesis by (simp add: joinPaths_def Let_def)
qed

lemma take4_block:
  assumes "r \<in> set (map (handle (grp s (CHR ''/'' # v # n # CHR ''/'' # e # p))) specs)"
    and "e \<noteq> CHR ''/''" and "v \<noteq> CHR ''/''" and "n \<noteq> CHR ''/''"
  shows "take 4 (rPath r) = [CHR ''/'', v, n, CHR ''/'']"
  using assms(1) take4_joinPaths [OF assms(2-4)]
  by (auto simp: handle_def grp_def)

lemma routeTable_paths:
  assumes "r \<in> set (routeTable s)"
  shows "r = \<lparr>rMethod = GET, rPath = ''/health'', rHandlers = [Health]\<rparr> \<or>
         (take 4 (rPath r) = ''/v1/'' \<or> take 4 (rPath r) = ''/v2/'') \<and>
         (\<exists>hs. rHandlers r = groupHandlers s @ hs)"
proof -
  from assms consider
    "r = handle \<lparr>Handlers = [], basePath = ''/''\<rparr> (GET, ''/health'', [Health])"
    | p specs where "r \<in> set (map (handle (grp s (''/v1/'' @ p))) specs)" "p \<noteq> []" "hd p \<noteq> CHR ''/''"
    | p specs where "r \<in> set (map (handle (grp s (''/v2/'' @ p))) specs)" "p \<noteq> []" "hd p \<noteq> CHR ''/''"
    unfolding routeTable_def set_append Un_iff
    apply (elim disjE)
    apply (simp; fail)
    apply (force)+
    done
  then show ?thesis
  proof cases
    case 1
    then show ?thesis by (simp add: health_route)
  next
    case 2
    then obtain e p' where p: "p = e # p'" "e \<noteq> CHR ''/''" by (cases p) auto
    from 2(1) have "take 4 (rPath r) = ''/v1/''"
      unfolding p using take4_block [of r s "CHR ''v''" "CHR ''1''" e p' specs] p(2) by simp
    moreover from 2(1) have "\<exists>hs. rHandlers r = groupHandlers s @ hs"
      by (auto simp: handle_def grp_def)
    ultimately show ?thesis by simp
  next
    case 3
    then obtain e p' where p: "p = e # p'" "e \<noteq> CHR ''/''" by (cases p) auto
    from 3(1) have "take 4 (rPath r) = ''/v2/''"
      unfolding p using take4_block [of r s "CHR ''v''" "CHR ''2''" e p' specs] p(2) by simp
    moreover from 3(1) have "\<exists>hs. rHandlers r = groupHandlers s @ hs"
      by (auto simp: handle_def grp_def)
    ultimately show ?thesis by simp
  qed
qed

lemma routeTable_spec:
  assumes "r \<in> set (routeTable s)"
  shows "r = \<lparr>rMethod = GET, rPath = ''/health'', rHandlers = [Health]\<rparr> \<or>
    (\<exists>p m q hs. r = handle (grp s p) (m, q, hs) \<and>
       (m, q, hs) \<in> set (configs_routes s @ registry_routes s @ certificate_routes s @
          secrets_routes s @ nodes_routes s @ apps_routes s @ namespace_routes s @
          function_routes s @ objects_routes s @ properties_routes @ sysconfig_routes @
          module_routes s @ quotas_routes s @ yaml_routes @ objectsV2_routes s))"
  using assms unfolding routeTable_def set_append Un_iff set_map image_iff
  apply (elim disjE bexE)
                 apply (simp add: health_route)
                apply (rule disjI2, metis prod_cases3)+
  done

lemma stage_WrapperCache [simp]: "stage (WrapperCache s h) = Some 3"
  by (simp add: WrapperCache_def WrapperCacheDuration_def Let_def)

lemma stages_External: "stages (map External fs) = []"
  by (induction fs) (simp_all add: stages_def)

lemma stages_append: "stages (xs @ ys) = stages xs @ stages ys"
  by (simp add: stages_def List.map_filter_def)

lemma stages_groupHandlers: "stages (groupHandlers s @ hs) = 0 # stages hs"
proof -
  have "stages (groupHandlers s @ hs) =
      stages [RequestIDHandler, LoggerHandler, AuthHandler] @
      stages (map External (ExternalHandlers s)) @ stages hs"
    by (simp only: groupHandlers_def stages_append append_assoc)
  moreover have "stages [RequestIDHandler, LoggerHandler, AuthHandler] = [0]"
    by (simp add: stages_def)
  ultimately show ?thesis by (simp add: stages_External)
qed

lemma stages_specs:
  "list_all (\<lambda>(m, q, hs). stages hs = [3] \<or> stages hs = [1, 3] \<or> stages hs = [1, 2, 3])
     (configs_routes s @ registry_routes s @ certificate_routes s @
          secrets_routes s @ nodes_routes s @ apps_routes s @ namespace_routes s @
          function_routes s @ objects_routes s @ properties_routes @ sysconfig_routes @
          module_routes s @ quotas_routes s @ yaml_routes @ objectsV2_routes s)"
  unfolding block_defs
  by (simp add: stages_def)

lemma stages_routeTable:
  assumes "r \<in> set (routeTable s)"
  shows "stages (rHandlers r) = [] \<or> stages (rHandlers r) = [0, 3] \<or>
     stages (rHandlers r) = [0, 1, 3] \<or> stages (rHandlers r) = [0, 1, 2, 3]"
  using routeTable_spec [OF assms]
proof
  assume "r = \<lparr>rMethod = GET, rPath = ''/health'', rHandlers = [Health]\<rparr>"
  then show ?thesis by (simp add: stages_def)
next
  assume "\<exists>p m q hs. r = handle (grp s p) (m, q, hs) \<and>
       (m, q, hs) \<in> set (configs_routes s @ registry_routes s @ certificate_routes s @
          secrets_routes s @ nodes_routes s @ apps_routes s @ namespace_routes s @
          function_routes s @ objects_routes s @ properties_routes @ sysconfig_routes @
          module_routes s @ quotas_routes s @ yaml_routes @ objectsV2_routes s)"
  then obtain p m q hs where r: "r = handle (grp s p) (m, q, hs)"
    and "(m, q, hs) \<in> set (configs_routes s @ registry_routes s @ certificate_routes s @
          secrets_routes s @ nodes_routes s @ apps_routes s @ namespace_routes s @
          function_routes s @ objects_routes s @ properties_routes @ sysconfig_routes @
          module_routes s @ quotas_routes s @ yaml_routes @ objectsV2_routes s)" by blast
  with stages_specs [of s]
  have "stages hs = [3] \<or> stages hs = [1, 3] \<or> stages hs = [1, 2, 3]"
    unfolding list_all_iff by blast
  then show ?thesis
    by (auto simp: r rHandlers_handle Handlers_grp stages_groupHandlers)
qed


lemma lookup_configs_post:
  "map_option rHandlers (find (\<lambda>r. rMethod r = POST \<and> rPath r = ''/v1/configs'') (routeTable s)) =
    Some (groupHandlers s @ [WrapperRaw ''ValidateResourceForCreating'' True, Wrapper ''CreateConfig''])"
  unfolding routeTable_def block_defs
  by (simp add: handle_def grp_def joinPaths_def path_Join_def)



subsection \<open>Authentication\<close>

lemma run_groupHandlers:
  "run s a (groupHandlers s0 @ hs) (NewContext req store g) =
   run s a (map External (ExternalHandlers s0) @ hs)
     (AuthHandler_body s (LoggerHandler_body (RequestIDHandler_body (NewContext req store g))))"
  by (simp add: groupHandlers_def NewContext_def RequestIDHandler_body_def LoggerHandler_body_def)

lemma Events_AuthHandler_body:
  "Events (AuthHandler_body s c) = Events c @ [Authenticate]"
  by (simp add: AuthHandler_body_def PopulateFailedResponse_def Let_def split: option.splits)

lemma AuthHandler_body_failure:
  assumes "failure (Auth s (Req c)) = Some err"
  shows "AuthHandler_body s c =
    c\<lparr>Keys := (case resolved (Auth s (Req c)) of None \<Rightarrow> Keys c
               | Some ns \<Rightarrow> (Keys c)(''namespace'' \<mapsto> ns)),
      Events := Events c @ [Authenticate],
      Log := Log c @ [(''request authenticate failed'',
         [Any ''requestId'' (case (case resolved (Auth s (Req c)) of None \<Rightarrow> Keys c
               | Some ns \<Rightarrow> (Keys c)(''namespace'' \<mapsto> ns)) ''requestId'' of None \<Rightarrow> [] | Some v \<Rightarrow> v),
          Any ''namespace'' (case (case resolved (Auth s (Req c)) of None \<Rightarrow> Keys c
               | Some ns \<Rightarrow> (Keys c)(''namespace'' \<mapsto> ns)) ''namespace'' of None \<Rightarrow> [] | Some v \<Rightarrow> v),
          Any ''authorization'' (Authorization (Req c)), LogError err])],
      Written := Some (Failed ErrRequestAccessDenied (message err)
         (case (case resolved (Auth s (Req c)) of None \<Rightarrow> Keys c
               | Some ns \<Rightarrow> (Keys c)(''namespace'' \<mapsto> ns)) ''requestId'' of None \<Rightarrow> [] | Some v \<Rightarrow> v)),
      Header := (Header c)(''Content-Type'' \<mapsto> ''application/json; charset=utf-8''),
      Aborted := True\<rparr>"
  using assms
  by (simp add: AuthHandler_body_def PopulateFailedResponse_def Let_def GetTrace_def
      GetNamespace_def GetString_def common_Error_def)

lemma InitRoute_fields:
  assumes "InitRoute s g = Inr (s', g')"
  shows "\<exists>a. api s = Some a \<and> g' = g\<lparr>NodeCollector := NodeNumberCollector a\<rparr> \<and>
     api s' = api s \<and> Auth s' = Auth s \<and> cfg s' = cfg s \<and>
     ExternalHandlers s' = ExternalHandlers s"
proof (cases "api s")
  case None
  with assms show ?thesis by (simp add: InitRoute_None)
next
  case (Some a)
  with assms show ?thesis unfolding InitRoute_def Let_def by auto
qed

text \<open>
  C4: on every route of the v1 and v2 groups, a request whose authentication fails is
  answered with the access-denied envelope and aborted: the only collaborator called is
  the authentication (no external handler, lock, quota check, resource handler or cache
  access), the cache is unchanged, and the last log line carries the trace id, the
  namespace, the raw \<open>Authorization\<close> header and the error.
\<close>

theorem auth_failure_rejects:
  assumes "router s = gin_New" and "InitRoute s g = Inr (s', g')"
    and "r \<in> set (trees (router s'))" and "rPath r \<noteq> ''/health''"
    and "failure (Auth s req) = Some err"
    and "c = run s' a (rHandlers r) (NewContext req store g')"
  shows "Written c = Some (Failed ErrRequestAccessDenied (message err) (RequestID req)) \<and>
     Aborted c \<and> Events c = [Authenticate] \<and> APICache c = store \<and>
     last (Log c) = (''request authenticate failed'',
        [Any ''requestId'' (RequestID req), Any ''namespace'' (resolvedNamespace s req),
         Any ''authorization'' (Authorization req), LogError err])"
proof -
  from assms(1-3) have "r \<in> set (routeTable s)" by (simp add: InitRoute_trees)
  from routeTable_paths [OF this] assms(4)
  obtain hs where hs: "rHandlers r = groupHandlers s @ hs" by auto
  from InitRoute_fields [OF assms(2)] have auth: "Auth s' = Auth s" by blast
  define c2 :: "'a Context" where
    "c2 = LoggerHandler_body (RequestIDHandler_body (NewContext req store g'))"
  have req: "Req c2 = req" and keys: "Keys c2 = [''requestId'' \<mapsto> RequestID req]"
    and ev: "Events c2 = []" and st: "APICache c2 = store"
    by (simp_all add: c2_def NewContext_def RequestIDHandler_body_def LoggerHandler_body_def)
  have fail: "failure (Auth s' (Req c2)) = Some err" using assms(5) auth req by simp
  have ab: "Aborted (AuthHandler_body s' c2)"
    by (simp add: AuthHandler_body_failure [OF fail])
  have "c = run s' a (map External (ExternalHandlers s) @ hs) (AuthHandler_body s' c2)"
    unfolding assms(6) hs run_groupHandlers c2_def ..
  then have c: "c = AuthHandler_body s' c2" using ab by (simp add: run_Aborted)
  show ?thesis
    unfolding c AuthHandler_body_failure [OF fail]
    by (simp add: req keys ev st auth resolvedNamespace_def split: option.splits)
qed

text \<open>
  C3: after \<open>InitRoute\<close>, every route but the health check lies under \<open>/v1/\<close> or
  \<open>/v2/\<close> and its chain is the two engine-wide middlewares, then \<open>AuthHandler\<close> as the
  first middleware of the group, then the external handlers, then the handlers of the
  route; so the authentication is the first collaborator called on every request. The
  health route and the two fallback chains (no route, verb not allowed) are without
  \<open>AuthHandler\<close>.
\<close>

theorem auth_first_in_groups:
  assumes "router s = gin_New" and "InitRoute s g = Inr (s', g')"
  shows "(\<forall>r \<in> set (trees (router s')).
            (if rPath r = ''/health'' then rHandlers r = [Health]
             else (take 4 (rPath r) = ''/v1/'' \<or> take 4 (rPath r) = ''/v2/'') \<and>
                  (\<exists>hs. rHandlers r =
                     [RequestIDHandler, LoggerHandler, AuthHandler] @
                     map External (ExternalHandlers s) @ hs) \<and>
                  (\<forall>a req store. \<exists>es.
                     Events (run s' a (rHandlers r) (NewContext req store g')) = Authenticate # es))) \<and>
         AuthHandler \<notin> set (allNoRoute (router s')) \<and>
         AuthHandler \<notin> set (allNoMethod (router s'))"
proof -
  have trees: "trees (router s') = routeTable s" using assms by (rule InitRoute_trees)
  have "AuthHandler \<notin> set (allNoRoute (router s')) \<and> AuthHandler \<notin> set (allNoMethod (router s'))"
    using InitRoute_Inr [OF assms] by auto
  moreover have "if rPath r = ''/health'' then rHandlers r = [Health]
             else (take 4 (rPath r) = ''/v1/'' \<or> take 4 (rPath r) = ''/v2/'') \<and>
                  (\<exists>hs. rHandlers r =
                     [RequestIDHandler, LoggerHandler, AuthHandler] @
                     map External (ExternalHandlers s) @ hs) \<and>
                  (\<forall>a req store. \<exists>es.
                     Events (run s' a (rHandlers r) (NewContext req store g')) = Authenticate # es)"
    if r: "r \<in> set (routeTable s)" for r
  proof -
    from routeTable_paths [OF r] show ?thesis
    proof
      assume "r = \<lparr>rMethod = GET, rPath = ''/health'', rHandlers = [Health]\<rparr>"
      then show ?thesis by simp
    next
      assume h: "(take 4 (rPath r) = ''/v1/'' \<or> take 4 (rPath r) = ''/v2/'') \<and>
         (\<exists>hs. rHandlers r = groupHandlers s @ hs)"
      then obtain hs where hs: "rHandlers r = groupHandlers s @ hs" by blast
      from h have nh: "rPath r \<noteq> ''/health''" by auto
      have "\<exists>es. Events (run s' a (rHandlers r) (NewContext req store g')) = Authenticate # es"
        for a req store
      proof -
        obtain es where "Events (run s' a (map External (ExternalHandlers s) @ hs)
            (AuthHandler_body s' (LoggerHandler_body (RequestIDHandler_body (NewContext req store g'))))) =
          Events (AuthHandler_body s' (LoggerHandler_body (RequestIDHandler_body (NewContext req store g')))) @ es"
          using Events_run by blast
        then show ?thesis
          unfolding hs run_groupHandlers
          by (simp add: Events_AuthHandler_body LoggerHandler_body_def RequestIDHandler_body_def
              NewContext_def)
      qed
      with h hs nh show ?thesis by (auto simp: groupHandlers_def)
    qed
  qed
  ultimately show ?thesis unfolding trees by blast
qed

lemma exampleServer_init:
  "\<exists>e. InitRoute exampleServer initGlobals =
         Inr (exampleServer\<lparr>router := e\<rparr>, \<lparr>NodeCollector = Some 1\<rparr>) \<and>
       trees e = routeTable exampleServer \<and>
       allNoRoute e = [RequestIDHandler, LoggerHandler, NoRouteHandler] \<and>
       allNoMethod e = [RequestIDHandler, LoggerHandler, NoMethodHandler]"
  using InitRoute_Some [OF router_exampleServer api_exampleServer, of initGlobals]
  by (auto simp: initGlobals_def exampleAPI_def)

lemma nodes_post_route:
  "\<lparr>rMethod = POST, rPath = ''/v1/nodes'',
    rHandlers = groupHandlers s @ [WrapperWithLock, NodeQuotaHandler, Wrapper ''CreateNode'']\<rparr>
   \<in> set (routeTable s)"
  by (simp add: routeTable_def nodes_routes_def handle_def grp_def joinPaths_def)

lemma groupHandlers_exampleServer:
  "groupHandlers exampleServer = [RequestIDHandler, LoggerHandler, AuthHandler]"
  by (simp add: groupHandlers_def exampleServer_def)

text \<open>
  C4 on the example server: a request with an unknown token on the node-creation route.
\<close>

theorem auth_failure_rejects_witness:
  "\<exists>s' g' r c. router exampleServer = gin_New \<and>
     InitRoute exampleServer initGlobals = Inr (s', g') \<and>
     r \<in> set (trees (router s')) \<and> rMethod r = POST \<and> rPath r = ''/v1/nodes'' \<and>
     rPath r \<noteq> ''/health'' \<and>
     failure (Auth exampleServer (exampleRequest POST ''/v1/nodes'' ''stolen'')) =
       Some (Error ErrInternal ''bad token'') \<and>
     c = run s' exampleAPI (rHandlers r)
           (NewContext (exampleRequest POST ''/v1/nodes'' ''stolen'') Map.empty g') \<and>
     Written c = Some (Failed ErrRequestAccessDenied ''bad token'' ''t1'') \<and>
     Aborted c \<and> Events c = [Authenticate] \<and> APICache c = Map.empty \<and>
     last (Log c) = (''request authenticate failed'',
        [Any ''requestId'' ''t1'', Any ''namespace'' [],
         Any ''authorization'' ''stolen'', LogError (Error ErrInternal ''bad token'')])"
proof -
  obtain e where init: "InitRoute exampleServer initGlobals =
         Inr (exampleServer\<lparr>router := e\<rparr>, \<lparr>NodeCollector = Some (1::nat)\<rparr>)"
    and trees: "trees e = routeTable exampleServer"
    using exampleServer_init by blast
  define r where "r = \<lparr>rMethod = POST, rPath = ''/v1/nodes'',
    rHandlers = groupHandlers exampleServer @ [WrapperWithLock, NodeQuotaHandler, Wrapper ''CreateNode'']\<rparr>"
  define c where "c = run (exampleServer\<lparr>router := e\<rparr>) exampleAPI (rHandlers r)
           (NewContext (exampleRequest POST ''/v1/nodes'' ''stolen'') Map.empty \<lparr>NodeCollector = Some (1::nat)\<rparr>)"
  have mem: "r \<in> set (trees (router (exampleServer\<lparr>router := e\<rparr>)))"
    by (simp add: trees r_def nodes_post_route)
  have path: "rPath r \<noteq> ''/health''" "rPath r = ''/v1/nodes''" "rMethod r = POST"
    by (simp_all add: r_def)
  have fail: "failure (Auth exampleServer (exampleRequest POST ''/v1/nodes'' ''stolen'')) =
       Some (Error ErrInternal ''bad token'')"
    by (simp add: exampleServer_def exampleRequest_def)
  from auth_failure_rejects [OF router_exampleServer init mem path(1) fail c_def]
  have "Written c = Some (Failed ErrRequestAccessDenied ''bad token'' ''t1'') \<and>
     Aborted c \<and> Events c = [Authenticate] \<and> APICache c = Map.empty \<and>
     last (Log c) = (''request authenticate failed'',
        [Any ''requestId'' ''t1'', Any ''namespace'' [],
         Any ''authorization'' ''stolen'', LogError (Error ErrInternal ''bad token'')])"
    by (simp add: exampleRequest_def resolvedNamespace_def exampleServer_def)
  with router_exampleServer init mem path fail c_def show ?thesis by blast
qed

text \<open>
  C3 on the example server: the chain of the node-creation route and the first event of
  a request on it.
\<close>

theorem auth_first_in_groups_witness:
  "\<exists>s' g' r. router exampleServer = gin_New \<and>
     InitRoute exampleServer initGlobals = Inr (s', g') \<and>
     r \<in> set (trees (router s')) \<and> rMethod r = POST \<and> rPath r = ''/v1/nodes'' \<and>
     rHandlers r = [RequestIDHandler, LoggerHandler, AuthHandler,
                    WrapperWithLock, NodeQuotaHandler, Wrapper ''CreateNode''] \<and>
     (\<exists>es. Events (run s' exampleAPI (rHandlers r)
              (NewContext (exampleRequest POST ''/v1/nodes'' ''token-a'') Map.empty g')) =
            Authenticate # es) \<and>
     AuthHandler \<notin> set (allNoRoute (router s')) \<and>
     AuthHandler \<notin> set (allNoMethod (router s'))"
proof -
  obtain e where init: "InitRoute exampleServer initGlobals =
         Inr (exampleServer\<lparr>router := e\<rparr>, \<lparr>NodeCollector = Some (1::nat)\<rparr>)"
    and trees: "trees e = routeTable exampleServer"
    using exampleServer_init by blast
  define r where "r = \<lparr>rMethod = POST, rPath = ''/v1/nodes'',
    rHandlers = groupHandlers exampleServer @ [WrapperWithLock, NodeQuotaHandler, Wrapper ''CreateNode'']\<rparr>"
  have mem: "r \<in> set (trees (router (exampleServer\<lparr>router := e\<rparr>)))"
    by (simp add: trees r_def nodes_post_route)
  have path: "rPath r \<noteq> ''/health''" "rPath r = ''/v1/nodes''" "rMethod r = POST"
    "rHandlers r = [RequestIDHandler, LoggerHandler, AuthHandler,
                    WrapperWithLock, NodeQuotaHandler, Wrapper ''CreateNode'']"
    by (simp_all add: r_def groupHandlers_exampleServer)
  note th = auth_first_in_groups [OF router_exampleServer init]
  from th mem path(1)
  have "\<exists>es. Events (run (exampleServer\<lparr>router := e\<rparr>) exampleAPI (rHandlers r)
              (NewContext (exampleRequest POST ''/v1/nodes'' ''token-a'') Map.empty \<lparr>NodeCollector = Some (1::nat)\<rparr>)) =
            Authenticate # es"
    by (metis (no_types, lifting))
  moreover from th have "AuthHandler \<notin> set (allNoRoute (router (exampleServer\<lparr>router := e\<rparr>)))"
    "AuthHandler \<notin> set (allNoMethod (router (exampleServer\<lparr>router := e\<rparr>)))" by blast+
  ultimately show ?thesis using router_exampleServer init mem path by blast
qed

subsection \<open>Quota admission\<close>





lemma lookup_routeTable_configs_post:
  assumes "trees e = routeTable s"
  shows "lookup e POST ''/v1/configs'' =
    Some (groupHandlers s @ [WrapperRaw ''ValidateResourceForCreating'' True, Wrapper ''CreateConfig''])"
  by (simp add: lookup_def assms lookup_configs_post)


lemmas example_defs = exampleServer_def exampleAPI_def exampleRequest_def exampleConfig_def

lemma Auth_exampleServer:
  "Auth (exampleServer\<lparr>router := e\<rparr>) (exampleRequest m uri ''token-a'') = \<lparr>resolved = Some ''ns-a'', failure = None\<rparr>"
  "Auth (exampleServer\<lparr>router := e\<rparr>) (exampleRequest m uri ''token-b'') = \<lparr>resolved = Some ''ns-b'', failure = None\<rparr>"
  "Auth exampleServer (exampleRequest m uri ''token-a'') = \<lparr>resolved = Some ''ns-a'', failure = None\<rparr>"
  "Auth exampleServer (exampleRequest m uri ''token-b'') = \<lparr>resolved = Some ''ns-b'', failure = None\<rparr>"
  by (simp_all add: exampleServer_def exampleRequest_def)

lemma exampleAPI_simps:
  "call exampleAPI h ns req = \<lparr>setHeaders = [''X-Request-Id'' \<mapsto> RequestID req], result = Inr h\<rparr>"
  "Lock exampleAPI name = None"
  "CheckQuota exampleAPI ''ns-b'' col = Some (Error ErrQuotaExceeded ''quota out of limit'')"
  "CheckQuota exampleAPI ''ns-a'' col = None"
  "NodeNumberCollector exampleAPI = Some 1"
  by (simp_all add: exampleAPI_def)

lemma exampleRequest_simps:
  "RequestURI (exampleRequest m uri tok) = uri" "RequestID (exampleRequest m uri tok) = ''t1''"
  "Authorization (exampleRequest m uri tok) = tok" "Arrival (exampleRequest m uri tok) = 0"
  by (simp_all add: exampleRequest_def)






subsection \<open>The response cache\<close>

lemma WrapperCacheDuration_eq:
  "WrapperCacheDuration s h dur = WCacheByRequestURI dur (Wrapper h) apiCacheOptions"
  by (simp add: WrapperCacheDuration_def apiCacheOptions_def)

lemma serve_cache_hit:
  assumes "fresh (APICache c (cacheKey cc c)) (Arrival (Req c)) = Some e"
  shows "WCacheByRequestURI_body dur cc f c =
     c\<lparr>Events := Events c @ [CacheGet (cacheKey cc c)],
       Written := Some (Success (payload e)), Header := Header c ++ headers e\<rparr>"
  using assms by (simp add: WCacheByRequestURI_body_def Let_def)

lemma serve_cache_miss:
  assumes "fresh (APICache c (cacheKey cc c)) (Arrival (Req c)) = None"
  shows "WCacheByRequestURI_body dur cc (serve s a (Wrapper h)) c =
    (let r = call a h (GetNamespace c) (Req c);
         c0 = c\<lparr>Header := Header c ++ setHeaders r,
                Events := Events c @ [CacheGet (cacheKey cc c), ApiCall h]\<rparr>
     in case result r of
          Inl err \<Rightarrow> PopulateFailedResponse c0 err False
        | Inr res \<Rightarrow>
            if Aborted c then PopulateSuccessResponse c0 res
            else (PopulateSuccessResponse c0 res)
              \<lparr>APICache := (APICache c)(cacheKey cc c \<mapsto>
                  \<lparr>payload = res,
                   headers = cachedHeaders cc
                     ((Header c ++ setHeaders r)(''Content-Type'' \<mapsto> ''application/json; charset=utf-8'')),
                   expiresAt = Arrival (Req c) + sint dur\<rparr>),
                Events := Events c @ [CacheGet (cacheKey cc c), ApiCall h, CacheSet (cacheKey cc c) dur]\<rparr>)"
  using assms
  by (simp add: WCacheByRequestURI_body_def Wrapper_body_def PopulateFailedResponse_def
      PopulateSuccessResponse_def Let_def GetNamespace_def GetString_def split: sum.splits)

text \<open>
  C8: when caching is disabled, \<open>WrapperCache\<close> of a handler is the plain wrapper of
  that handler; serving a request with it is one call of the handler, with no cache
  lookup and no cache write, and the cache store is unchanged.
\<close>

theorem cache_disabled_passthrough:
  assumes "\<not> CacheEnable (AdminServer (cfg s))"
  shows "WrapperCache s h = Wrapper h \<and>
     serve s a (WrapperCache s h) c = Wrapper_body a h c \<and>
     APICache (serve s a (WrapperCache s h) c) = APICache c \<and>
     Events (serve s a (WrapperCache s h) c) = Events c @ [ApiCall h]"
  using assms
  by (simp add: WrapperCache_def Wrapper_body_def PopulateFailedResponse_def
      PopulateSuccessResponse_def Let_def split: sum.splits)

lemma sint_Default: "sint DefaultAPICacheDuration = 2000000000"
  by (simp add: DefaultAPICacheDuration_def Second_def)

text \<open>
  C7: when caching is enabled, \<open>WrapperCache\<close> is the cache wrapper with the configured
  duration if that is strictly positive (as a signed 64-bit value) and with the default
  of two seconds otherwise. Every cache write of a request carries this time-to-live,
  and on a miss a successful response is stored to expire that long after the request.
\<close>

theorem cache_ttl:
  assumes "CacheEnable (AdminServer (cfg s))"
    and "dur = (if 0 <s CacheDuration (AdminServer (cfg s))
                then CacheDuration (AdminServer (cfg s)) else DefaultAPICacheDuration)"
    and "c' = serve s a (WrapperCache s h) c" and "key = cacheKey apiCacheOptions c"
  shows "WrapperCache s h = WrapperCacheDuration s h dur \<and>
     sint DefaultAPICacheDuration = 2 * 1000000000 \<and>
     (\<exists>es. Events c' = Events c @ es \<and> (\<forall>k d. CacheSet k d \<in> set es \<longrightarrow> k = key \<and> d = dur)) \<and>
     (fresh (APICache c key) (Arrival (Req c)) = None \<and> \<not> Aborted c \<and>
      (\<exists>res. result (call a h (GetNamespace c) (Req c)) = Inr res) \<longrightarrow>
        CacheSet key dur \<in> set (Events c') \<and>
        (\<exists>e. APICache c' key = Some e \<and> expiresAt e = Arrival (Req c) + sint dur))"
proof -
  have w: "WrapperCache s h = WCacheByRequestURI dur (Wrapper h) apiCacheOptions"
    using assms(1,2) by (simp add: WrapperCache_def Let_def WrapperCacheDuration_eq)
  show ?thesis
  proof (cases "fresh (APICache c key) (Arrival (Req c))")
    case (Some e)
    then show ?thesis
      unfolding assms(3) w assms(4)
      by (simp add: serve_cache_hit WrapperCacheDuration_eq sint_Default)
  next
    case None
    then show ?thesis
      unfolding assms(3) w assms(4)
      by (auto simp: serve_cache_miss WrapperCacheDuration_eq sint_Default Let_def
          PopulateFailedResponse_def PopulateSuccessResponse_def split: sum.splits)
  qed
qed

text \<open>
  C9: the cache wrapper stores, with a response, only the \<open>Content-Type\<close> header of
  its headers; on a hit the handler is not called and the replay adds the stored headers
  to the response.
\<close>

theorem cached_headers_whitelist:
  assumes "c' = serve s a (WrapperCacheDuration s h dur) c"
    and "key = cacheKey apiCacheOptions c"
  shows "(\<forall>k. APICache c' k = APICache c k \<or>
            (\<exists>e. k = key \<and> APICache c' k = Some e \<and>
                 headers e = Header c' |` {''Content-Type''} \<and>
                 dom (headers e) \<subseteq> {''Content-Type''})) \<and>
         (\<forall>e. fresh (APICache c key) (Arrival (Req c)) = Some e \<longrightarrow>
            Header c' = Header c ++ headers e \<and> Written c' = Some (Success (payload e)) \<and>
            Events c' = Events c @ [CacheGet key])"
proof (cases "fresh (APICache c key) (Arrival (Req c))")
  case (Some e)
  then show ?thesis
    unfolding assms WrapperCacheDuration_eq
    by (simp add: serve_cache_hit)
next
  case None
  then show ?thesis
    unfolding assms WrapperCacheDuration_eq
    by (auto simp: serve_cache_miss Let_def cachedHeaders_def apiCacheOptions_def
        PopulateFailedResponse_def PopulateSuccessResponse_def split: sum.splits)
qed

lemma cacheKey_apiCacheOptions:
  "cacheKey apiCacheOptions c = RequestURI (Req c) @ GetNamespace c"
  by (simp add: cacheKey_def apiCacheOptions_def GetNamespace_def)


lemma exampleServerWith_cfg:
  "CacheEnable (AdminServer (cfg (exampleServerWith b d))) = b"
  "CacheDuration (AdminServer (cfg (exampleServerWith b d))) = d"
  by (simp_all add: exampleServerWith_def)

lemma exampleServer_cfg:
  "CacheEnable (AdminServer (cfg exampleServer))"
  "CacheDuration (AdminServer (cfg exampleServer)) = 0"
  by (simp_all add: exampleServer_def exampleConfig_def)

lemma five_seconds_positive: "(0::64 word) <s 5000000000"
  by (simp add: word_sless_alt)

text \<open>C8 on the example server with caching switched off.\<close>

theorem cache_disabled_passthrough_witness:
  "\<not> CacheEnable (AdminServer (cfg (exampleServerWith False 5000000000))) \<and>
   WrapperCache (exampleServerWith False 5000000000) ''GetNode'' = Wrapper ''GetNode'' \<and>
   APICache (serve (exampleServerWith False 5000000000) exampleAPI
      (WrapperCache (exampleServerWith False 5000000000) ''GetNode'')
      (NewContext (exampleRequest GET ''/v1/nodes/x'' ''token-a'') Map.empty initGlobals)) = Map.empty \<and>
   Events (serve (exampleServerWith False 5000000000) exampleAPI
      (WrapperCache (exampleServerWith False 5000000000) ''GetNode'')
      (NewContext (exampleRequest GET ''/v1/nodes/x'' ''token-a'') Map.empty initGlobals)) =
     [ApiCall ''GetNode'']"
proof -
  define c :: "nat Context" where
    "c = NewContext (exampleRequest GET ''/v1/nodes/x'' ''token-a'') Map.empty initGlobals"
  have off: "\<not> CacheEnable (AdminServer (cfg (exampleServerWith False 5000000000)))"
    by (simp add: exampleServerWith_cfg)
  note th = cache_disabled_passthrough [OF off, where h = "''GetNode''" and a = exampleAPI and c = c]
  from th have w: "WrapperCache (exampleServerWith False 5000000000) ''GetNode'' = Wrapper ''GetNode''"
    and a: "APICache (serve (exampleServerWith False 5000000000) exampleAPI
      (WrapperCache (exampleServerWith False 5000000000) ''GetNode'') c) = APICache c"
    and b: "Events (serve (exampleServerWith False 5000000000) exampleAPI
      (WrapperCache (exampleServerWith False 5000000000) ''GetNode'') c) = Events c @ [ApiCall ''GetNode'']"
    by blast+
  have c: "APICache c = Map.empty" "Events c = []" by (simp_all add: c_def NewContext_def)
  show ?thesis
    unfolding c_def [symmetric] a b c using off w by simp
qed

text \<open>
  C7 on the example server, whose configured duration is zero (the default applies),
  and on the variant with five seconds configured.
\<close>

theorem cache_ttl_witness:
  "CacheEnable (AdminServer (cfg exampleServer)) \<and>
   \<not> 0 <s CacheDuration (AdminServer (cfg exampleServer)) \<and>
   WrapperCache exampleServer ''GetNode'' =
     WrapperCacheDuration exampleServer ''GetNode'' DefaultAPICacheDuration \<and>
   CacheSet ''/v1/nodes/x'' DefaultAPICacheDuration \<in> set (Events (serve exampleServer exampleAPI
      (WrapperCache exampleServer ''GetNode'')
      (NewContext (exampleRequest GET ''/v1/nodes/x'' ''token-a'') Map.empty initGlobals))) \<and>
   map_option expiresAt (APICache (serve exampleServer exampleAPI
      (WrapperCache exampleServer ''GetNode'')
      (NewContext (exampleRequest GET ''/v1/nodes/x'' ''token-a'') Map.empty initGlobals))
      ''/v1/nodes/x'') = Some 2000000000 \<and>
   CacheEnable (AdminServer (cfg (exampleServerWith True 5000000000))) \<and>
   0 <s CacheDuration (AdminServer (cfg (exampleServerWith True 5000000000))) \<and>
   WrapperCache (exampleServerWith True 5000000000) ''GetNode'' =
     WrapperCacheDuration (exampleServerWith True 5000000000) ''GetNode'' 5000000000"
proof -
  define c :: "nat Context" where
    "c = NewContext (exampleRequest GET ''/v1/nodes/x'' ''token-a'') Map.empty initGlobals"
  have c: "cacheKey apiCacheOptions c = ''/v1/nodes/x''" "Arrival (Req c) = 0" "\<not> Aborted c"
    "fresh (APICache c ''/v1/nodes/x'') 0 = None" "GetNamespace c = []"
    by (simp_all add: c_def NewContext_def cacheKey_apiCacheOptions GetNamespace_def GetString_def
        exampleRequest_simps fresh_def)
  have d0: "(if 0 <s CacheDuration (AdminServer (cfg exampleServer))
       then CacheDuration (AdminServer (cfg exampleServer)) else DefaultAPICacheDuration) =
      DefaultAPICacheDuration" by (simp add: exampleServer_cfg)
  note th0 = cache_ttl [OF exampleServer_cfg(1) d0 [symmetric] refl refl,
      where a = exampleAPI and h = "''GetNode''" and c = c]
  have d5: "(if 0 <s CacheDuration (AdminServer (cfg (exampleServerWith True 5000000000)))
       then CacheDuration (AdminServer (cfg (exampleServerWith True 5000000000)))
       else DefaultAPICacheDuration) = 5000000000"
    by (simp add: exampleServerWith_cfg five_seconds_positive)
  have on5: "CacheEnable (AdminServer (cfg (exampleServerWith True 5000000000)))"
    by (simp add: exampleServerWith_cfg)
  note th5 = cache_ttl [OF on5 d5 [symmetric] refl refl,
      where a = exampleAPI and h = "''GetNode''" and c = c]
  from th0 have "WrapperCache exampleServer ''GetNode'' =
     WrapperCacheDuration exampleServer ''GetNode'' DefaultAPICacheDuration" by blast
  moreover from th0 have "fresh (APICache c (cacheKey apiCacheOptions c)) (Arrival (Req c)) = None \<and>
      \<not> Aborted c \<and>
      (\<exists>res. result (call exampleAPI ''GetNode'' (GetNamespace c) (Req c)) = Inr res) \<longrightarrow>
        CacheSet (cacheKey apiCacheOptions c) DefaultAPICacheDuration \<in>
          set (Events (serve exampleServer exampleAPI (WrapperCache exampleServer ''GetNode'') c)) \<and>
        (\<exists>e. APICache (serve exampleServer exampleAPI (WrapperCache exampleServer ''GetNode'') c)
           (cacheKey apiCacheOptions c) = Some e \<and>
           expiresAt e = Arrival (Req c) + sint DefaultAPICacheDuration)"
    by blast
  with c have "CacheSet ''/v1/nodes/x'' DefaultAPICacheDuration \<in>
      set (Events (serve exampleServer exampleAPI (WrapperCache exampleServer ''GetNode'') c)) \<and>
     (\<exists>e. APICache (serve exampleServer exampleAPI (WrapperCache exampleServer ''GetNode'') c)
        ''/v1/nodes/x'' = Some e \<and> expiresAt e = 0 + sint DefaultAPICacheDuration)"
    by (simp add: exampleAPI_simps)
  moreover from th5 have "WrapperCache (exampleServerWith True 5000000000) ''GetNode'' =
     WrapperCacheDuration (exampleServerWith True 5000000000) ''GetNode'' 5000000000" by blast
  ultimately show ?thesis
    using on5 by (auto simp: c_def [symmetric] exampleServer_cfg exampleServerWith_cfg sint_Default
        five_seconds_positive)
qed

lemma cachedHeaders_apiCacheOptions:
  "cachedHeaders apiCacheOptions h = h |` {''Content-Type''}"
  by (simp add: cachedHeaders_def apiCacheOptions_def)

lemma serve_example_miss:
  assumes "c = NewContext (exampleRequest GET ''/v1/nodes/x'' ''token-a'') Map.empty initGlobals"
    and "c' = serve exampleServer exampleAPI
       (WrapperCacheDuration exampleServer ''GetNode'' DefaultAPICacheDuration) c"
  shows "Header c' ''X-Request-Id'' = Some ''t1''"
    "APICache c' = [''/v1/nodes/x'' \<mapsto>
       \<lparr>payload = ''GetNode'',
        headers = [''X-Request-Id'' \<mapsto> ''t1'', ''Content-Type'' \<mapsto> ''application/json; charset=utf-8'']
                    |` {''Content-Type''},
        expiresAt = 2000000000\<rparr>]"
proof -
  have c: "cacheKey apiCacheOptions c = ''/v1/nodes/x''" "Arrival (Req c) = 0" "\<not> Aborted c"
    "APICache c = Map.empty" "GetNamespace c = []" "Header c = Map.empty"
    "RequestID (Req c) = ''t1''"
    by (simp_all add: assms(1) NewContext_def cacheKey_apiCacheOptions GetNamespace_def GetString_def
        exampleRequest_simps)
  have miss: "fresh (APICache c (cacheKey apiCacheOptions c)) (Arrival (Req c)) = None"
    by (simp add: c fresh_def)
  show "Header c' ''X-Request-Id'' = Some ''t1''"
    unfolding assms(2) WrapperCacheDuration_eq serve.simps serve_cache_miss [OF miss]
    by (simp add: Let_def exampleAPI_simps c PopulateSuccessResponse_def)
  show "APICache c' = [''/v1/nodes/x'' \<mapsto>
       \<lparr>payload = ''GetNode'',
        headers = [''X-Request-Id'' \<mapsto> ''t1'', ''Content-Type'' \<mapsto> ''application/json; charset=utf-8'']
                    |` {''Content-Type''},
        expiresAt = 2000000000\<rparr>]"
    unfolding assms(2) WrapperCacheDuration_eq serve.simps serve_cache_miss [OF miss]
    by (simp add: Let_def exampleAPI_simps c PopulateSuccessResponse_def sint_Default
        cachedHeaders_apiCacheOptions)
qed

text \<open>
  C9 on the example server: the response to the first request carries a request-id
  header; the stored entry and the replay to the second request do not.
\<close>

theorem cached_headers_whitelist_witness:
  "\<exists>c1' c2' e.
     c1' = serve exampleServer exampleAPI
       (WrapperCacheDuration exampleServer ''GetNode'' DefaultAPICacheDuration)
       (NewContext (exampleRequest GET ''/v1/nodes/x'' ''token-a'') Map.empty initGlobals) \<and>
     Header c1' ''X-Request-Id'' = Some ''t1'' \<and>
     APICache c1' ''/v1/nodes/x'' = Some e \<and>
     headers e = Header c1' |` {''Content-Type''} \<and>
     headers e ''X-Request-Id'' = None \<and>
     c2' = serve exampleServer exampleAPI
       (WrapperCacheDuration exampleServer ''GetNode'' DefaultAPICacheDuration)
       (NewContext (exampleRequest GET ''/v1/nodes/x'' ''token-a'') (APICache c1') initGlobals) \<and>
     Header c2' = headers e \<and>
     Header c2' ''X-Request-Id'' = None \<and>
     Events c2' = [CacheGet ''/v1/nodes/x'']"
proof -
  define H where "H = WrapperCacheDuration exampleServer ''GetNode'' DefaultAPICacheDuration"
  define c1 :: "nat Context" where
    "c1 = NewContext (exampleRequest GET ''/v1/nodes/x'' ''token-a'') Map.empty initGlobals"
  define c1' where "c1' = serve exampleServer exampleAPI H c1"
  define e where "e = \<lparr>payload = ''GetNode'',
        headers = [''X-Request-Id'' \<mapsto> ''t1'', ''Content-Type'' \<mapsto> ''application/json; charset=utf-8'']
                    |` {''Content-Type''},
        expiresAt = 2000000000\<rparr>"
  define c2 :: "nat Context" where
    "c2 = NewContext (exampleRequest GET ''/v1/nodes/x'' ''token-a'') (APICache c1') initGlobals"
  define c2' where "c2' = serve exampleServer exampleAPI H c2"
  note m = serve_example_miss [OF c1_def c1'_def [unfolded H_def]]
  have st: "APICache c1' ''/v1/nodes/x'' = Some e" by (simp add: m(2) e_def)
  have k1: "cacheKey apiCacheOptions c1 = ''/v1/nodes/x''" "APICache c1 ''/v1/nodes/x'' = None"
    by (simp_all add: c1_def NewContext_def cacheKey_apiCacheOptions GetNamespace_def GetString_def
        exampleRequest_simps)
  note th1 = cached_headers_whitelist [OF c1'_def [unfolded H_def] refl]
  from th1 have "APICache c1' ''/v1/nodes/x'' = APICache c1 ''/v1/nodes/x'' \<or>
     (\<exists>e. APICache c1' ''/v1/nodes/x'' = Some e \<and> headers e = Header c1' |` {''Content-Type''})"
    by blast
  with st k1 have he: "headers e = Header c1' |` {''Content-Type''}" by auto
  have hx: "headers e ''X-Request-Id'' = None" by (simp add: e_def restrict_map_def)
  have k2: "cacheKey apiCacheOptions c2 = ''/v1/nodes/x''" "Arrival (Req c2) = 0"
    "APICache c2 = APICache c1'" "Header c2 = Map.empty" "Events c2 = []"
    by (simp_all add: c2_def NewContext_def cacheKey_apiCacheOptions GetNamespace_def GetString_def
        exampleRequest_simps)
  have hit: "fresh (APICache c2 (cacheKey apiCacheOptions c2)) (Arrival (Req c2)) = Some e"
    by (simp add: k2 st fresh_def) (simp add: e_def)
  note th2 = cached_headers_whitelist [OF c2'_def [unfolded H_def] refl]
  from th2 hit have "Header c2' = Header c2 ++ headers e \<and> Events c2' = Events c2 @ [CacheGet (cacheKey apiCacheOptions c2)]"
    by blast
  then have r2: "Header c2' = headers e" "Events c2' = [CacheGet ''/v1/nodes/x'']"
    by (simp_all add: k2)
  show ?thesis
    apply (rule exI [of _ c1'], rule exI [of _ c2'], rule exI [of _ e])
    using m(1) st he hx r2
    apply (simp add: c1'_def c2'_def c2_def c1_def H_def)
    done
qed


subsection \<open>Order of the stages\<close>

lemma serve_AuthHandler_aborts:
  "failure (Auth s (Req c)) = Some err \<Longrightarrow> Aborted (serve s a AuthHandler c)"
  by (simp add: AuthHandler_body_failure)

lemma run_lock_fails:
  "Lock a (lockName c) = Some err \<Longrightarrow> \<not> Aborted c \<Longrightarrow>
   run s a (WrapperWithLock # post) c = PopulateFailedResponse c err True"
  by (simp add: WrapperWithLock_body_def)

lemma serve_NodeQuotaHandler_aborts:
  "CheckQuota a (GetNamespace c) (NodeCollector (Globals c)) = Some err \<Longrightarrow>
   Aborted (serve s a NodeQuotaHandler c)"
  by (simp add: NodeQuotaHandler_body_def PopulateFailedResponse_def Let_def)

lemma stageTrace_append: "stageTrace (xs @ ys) = stageTrace xs @ stageTrace ys"
  by (simp add: stageTrace_def List.map_filter_def)

lemma stageTrace_simps:
  "stageTrace [] = []"
  "stageTrace (Authenticate # es) = 0 # stageTrace es"
  "stageTrace (LockAcquire n # es) = 1 # stageTrace es"
  "stageTrace (QuotaCheck ns col # es) = 2 # stageTrace es"
  "stageTrace (ApiCall h # es) = 3 # stageTrace es"
  "stageTrace (ExternalCall # es) = stageTrace es"
  "stageTrace (LockRelease n # es) = stageTrace es"
  "stageTrace (ValidatorCall h # es) = stageTrace es"
  "stageTrace (CacheGet k # es) = stageTrace es"
  "stageTrace (CacheSet k d # es) = stageTrace es"
  by (simp_all add: stageTrace_def)

lemma stages_Cons: "stages (h # hs) = stages [h] @ stages hs"
  using stages_append [of "[h]" hs] by simp

lemma okChain_tl: "okChain (h # hs) \<Longrightarrow> okChain hs"
  by (cases hs) simp_all

lemma simple_terminal: "simpleHandler h \<Longrightarrow> terminalHandler h"
  by (cases h) simp_all

lemma okChain_append:
  "\<forall>x\<in>set xs. simpleHandler x \<Longrightarrow> okChain ys \<Longrightarrow> okChain (xs @ ys)"
proof (induction xs)
  case Nil
  then show ?case by simp
next
  case (Cons x xs)
  then have ih: "okChain (xs @ ys)" and sx: "simpleHandler x" by simp_all
  show ?case
  proof (cases "xs @ ys")
    case Nil
    then show ?thesis using sx by (simp add: simple_terminal)
  next
    case (Cons z zs)
    with ih sx show ?thesis by simp
  qed
qed

lemma okChain_prefix: "okChain (pre @ post) \<Longrightarrow> okChain pre"
proof (induction pre)
  case Nil
  show ?case by simp
next
  case (Cons x pre)
  show ?case
  proof (cases "pre @ post")
    case Nil
    with Cons.prems show ?thesis by simp
  next
    case c: (Cons z zs)
    with Cons.prems have sx: "simpleHandler x" and "okChain (pre @ post)" by simp_all
    then have "okChain pre" using Cons.IH by simp
    with sx show ?thesis by (cases pre) (simp_all add: simple_terminal)
  qed
qed

lemma serve_simple_trace:
  assumes "simpleHandler h" and "h \<noteq> WrapperWithLock"
  shows "stageTrace (Events (serve s a h c)) = stageTrace (Events c) @ stages [h]"
  using assms
  by (cases h)
     (simp_all add: body_defs Let_def stageTrace_append stageTrace_simps stages_def
        split: option.splits sum.splits)

lemma serve_terminal_trace:
  assumes "terminalHandler h" and "h \<noteq> WrapperWithLock"
  shows "\<exists>t zs. stageTrace (Events (serve s a h c)) = stageTrace (Events c) @ t \<and>
           stages [h] = t @ zs"
proof (cases "simpleHandler h")
  case True
  from serve_simple_trace [OF True assms(2)] show ?thesis by blast
next
  case False
  then obtain dur h' cc where h: "h = WCacheByRequestURI dur h' cc" by (cases h) simp_all
  with assms(1) obtain f where h': "h' = Wrapper f" by (cases h') simp_all
  show ?thesis
  proof (cases "fresh (APICache c (cacheKey cc c)) (Arrival (Req c))")
    case (Some e)
    then show ?thesis
      unfolding h h'
      by (simp add: serve_cache_hit stageTrace_append stageTrace_simps)
  next
    case None
    then show ?thesis
      unfolding h h'
      by (simp add: serve_cache_miss Let_def PopulateFailedResponse_def PopulateSuccessResponse_def
          stageTrace_append stageTrace_simps stages_def split: sum.splits)
  qed
qed

lemma run_stageTrace:
  "okChain hs \<Longrightarrow>
   \<exists>t zs. stageTrace (Events (run s a hs c)) = stageTrace (Events c) @ t \<and> stages hs = t @ zs"
proof (induction hs arbitrary: c)
  case Nil
  show ?case by simp
next
  case (Cons h hs)
  from Cons.prems have ok: "okChain hs" by (rule okChain_tl)
  show ?case
  proof (cases "Aborted c")
    case True
    then show ?thesis by simp
  next
    case False
    show ?thesis
    proof (cases "h = WrapperWithLock")
      case True
      have st: "stages (h # hs) = 1 # stages hs"
        using stages_Cons [of h hs] True by (simp add: stages_def)
      show ?thesis
      proof (cases "Lock a (lockName c)")
        case (Some err)
        with True False show ?thesis
          by (simp add: WrapperWithLock_body_def PopulateFailedResponse_def)
      next
        case None
        obtain t zs where t: "stageTrace (Events (run s a hs (c\<lparr>Events := Events c @ [LockAcquire (lockName c)]\<rparr>))) =
            stageTrace (Events (c\<lparr>Events := Events c @ [LockAcquire (lockName c)]\<rparr>)) @ t"
          and z: "stages hs = t @ zs"
          using Cons.IH [OF ok] by blast
        from t have "stageTrace (Events (run s a (h # hs) c)) = stageTrace (Events c) @ (1 # t)"
          using True False None
          by (simp add: WrapperWithLock_body_def Let_def stageTrace_append stageTrace_simps)
        moreover have "stages (h # hs) = (1 # t) @ zs" using st z by simp
        ultimately show ?thesis by blast
      qed
    next
      case nl: False
      have step: "run s a (h # hs) c = run s a hs (serve s a h c)"
        using False nl by (cases h) simp_all
      show ?thesis
      proof (cases hs)
        case Nil
        with Cons.prems have "terminalHandler h" by simp
        moreover have "run s a [h] c = serve s a h c"
          using False nl by (cases h) simp_all
        ultimately show ?thesis
          unfolding Nil using serve_terminal_trace [OF _ nl, of s a c] by simp
      next
        case c2: (Cons z zs')
        with Cons.prems have sh: "simpleHandler h" by simp
        obtain t zs where t: "stageTrace (Events (run s a hs (serve s a h c))) =
            stageTrace (Events (serve s a h c)) @ t" and z: "stages hs = t @ zs"
          using Cons.IH [OF ok] by blast
        from t have "stageTrace (Events (run s a (h # hs) c)) = stageTrace (Events c) @ (stages [h] @ t)"
          unfolding step by (simp add: serve_simple_trace [OF sh nl])
        moreover have "stages (h # hs) = (stages [h] @ t) @ zs"
          using stages_Cons [of h hs] z by simp
        ultimately show ?thesis by blast
      qed
    qed
  qed
qed

lemma terminal_WrapperCache [simp]: "terminalHandler (WrapperCache s h)"
  by (simp add: WrapperCache_def WrapperCacheDuration_def Let_def)

lemma simple_groupHandlers: "\<forall>x\<in>set (groupHandlers s). simpleHandler x"
  by (auto simp: groupHandlers_def)

lemma okChain_specs:
  "list_all (\<lambda>(m, q, hs). okChain hs)
     (configs_routes s @ registry_routes s @ certificate_routes s @
          secrets_routes s @ nodes_routes s @ apps_routes s @ namespace_routes s @
          function_routes s @ objects_routes s @ properties_routes @ sysconfig_routes @
          module_routes s @ quotas_routes s @ yaml_routes @ objectsV2_routes s)"
  unfolding block_defs by simp

lemma okChain_routeTable:
  assumes "r \<in> set (routeTable s)"
  shows "okChain (rHandlers r)"
  using routeTable_spec [OF assms]
proof
  assume "r = \<lparr>rMethod = GET, rPath = ''/health'', rHandlers = [Health]\<rparr>"
  then show ?thesis by simp
next
  assume "\<exists>p m q hs. r = handle (grp s p) (m, q, hs) \<and>
       (m, q, hs) \<in> set (configs_routes s @ registry_routes s @ certificate_routes s @
          secrets_routes s @ nodes_routes s @ apps_routes s @ namespace_routes s @
          function_routes s @ objects_routes s @ properties_routes @ sysconfig_routes @
          module_routes s @ quotas_routes s @ yaml_routes @ objectsV2_routes s)"
  then obtain p m q hs where r: "r = handle (grp s p) (m, q, hs)"
    and "(m, q, hs) \<in> set (configs_routes s @ registry_routes s @ certificate_routes s @
          secrets_routes s @ nodes_routes s @ apps_routes s @ namespace_routes s @
          function_routes s @ objects_routes s @ properties_routes @ sysconfig_routes @
          module_routes s @ quotas_routes s @ yaml_routes @ objectsV2_routes s)" by blast
  with okChain_specs [of s] have "okChain hs" unfolding list_all_iff by blast
  with simple_groupHandlers [of s] have "okChain (groupHandlers s @ hs)" by (rule okChain_append)
  then show ?thesis by (simp add: r rHandlers_handle Handlers_grp)
qed

text \<open>
  C6: after \<open>InitRoute\<close>, the stages of every chain occur in the order authentication,
  lock, quota check, terminal handler: the chain of a route is the health check alone,
  or has the stages auth and handler, or auth, lock and handler, or all four. Every run
  of the chain, from any context, executes an initial segment of these stages, in this
  order. Once a prefix of the chain has aborted the request nothing after the prefix
  runs: the result is that of the prefix, and the stages executed are among those of
  the prefix. Each of the three gates aborts on its failure; when the lock is not
  acquired nothing behind it runs.
\<close>

theorem pipeline_order:
  assumes "router s = gin_New" and "InitRoute s g = Inr (s', g')"
  shows "\<forall>r\<in>set (trees (router s')).
     (stages (rHandlers r) = [] \<or> stages (rHandlers r) = [0, 3] \<or>
      stages (rHandlers r) = [0, 1, 3] \<or> stages (rHandlers r) = [0, 1, 2, 3]) \<and>
     (\<forall>a c. \<exists>t zs.
        stageTrace (Events (run s' a (rHandlers r) c)) = stageTrace (Events c) @ t \<and>
        stages (rHandlers r) = t @ zs) \<and>
     (\<forall>a c pre post. rHandlers r = pre @ post \<longrightarrow> Aborted (run s' a pre c) \<longrightarrow>
        run s' a (rHandlers r) c = run s' a pre c \<and>
        (\<exists>t zs. stageTrace (Events (run s' a (rHandlers r) c)) = stageTrace (Events c) @ t \<and>
                 stages pre = t @ zs)) \<and>
     (\<forall>a c err. failure (Auth s' (Req c)) = Some err \<longrightarrow> Aborted (serve s' a AuthHandler c)) \<and>
     (\<forall>a c err post. Lock a (lockName c) = Some err \<longrightarrow> \<not> Aborted c \<longrightarrow>
        run s' a (WrapperWithLock # post) c = PopulateFailedResponse c err True \<and>
        Aborted (run s' a (WrapperWithLock # post) c)) \<and>
     (\<forall>a c err. CheckQuota a (GetNamespace c) (NodeCollector (Globals c)) = Some err \<longrightarrow>
        Aborted (serve s' a NodeQuotaHandler c))"
proof -
  have trees: "trees (router s') = routeTable s" using assms by (rule InitRoute_trees)
  have seg: "\<exists>t zs. stageTrace (Events (run s' a (rHandlers r) c)) = stageTrace (Events c) @ t \<and>
        stages (rHandlers r) = t @ zs" if "r \<in> set (routeTable s)" for r a and c :: "'a Context"
    using run_stageTrace [OF okChain_routeTable [OF that]] .
  have cut: "run s' a (rHandlers r) c = run s' a pre c \<and>
        (\<exists>t zs. stageTrace (Events (run s' a (rHandlers r) c)) = stageTrace (Events c) @ t \<and>
                 stages pre = t @ zs)"
    if r: "r \<in> set (routeTable s)" and sp: "rHandlers r = pre @ post"
      and ab: "Aborted (run s' a pre c)" for r a pre post and c :: "'a Context"
  proof -
    have eq: "run s' a (rHandlers r) c = run s' a pre c"
      unfolding sp using ab by (rule run_append_Aborted)
    have "okChain pre" using okChain_routeTable [OF r] unfolding sp by (rule okChain_prefix)
    from run_stageTrace [OF this, of s' a c] eq show ?thesis by simp
  qed
  have gates: "(\<forall>a c err. failure (Auth s' (Req c)) = Some err \<longrightarrow> Aborted (serve s' a AuthHandler c)) \<and>
     (\<forall>a c err post. Lock a (lockName c) = Some err \<longrightarrow> \<not> Aborted (c :: 'a Context) \<longrightarrow>
        run s' a (WrapperWithLock # post) c = PopulateFailedResponse c err True \<and>
        Aborted (run s' a (WrapperWithLock # post) c)) \<and>
     (\<forall>a c err. CheckQuota a (GetNamespace c) (NodeCollector (Globals c)) = Some err \<longrightarrow>
        Aborted (serve s' a NodeQuotaHandler c))"
    using serve_AuthHandler_aborts [of s'] run_lock_fails [of _ _ _ s']
      serve_NodeQuotaHandler_aborts [of _ _ _ s']
    by (simp add: PopulateFailedResponse_def)
  show ?thesis
    unfolding trees
  proof (intro ballI conjI)
    fix r assume r: "r \<in> set (routeTable s)"
    show "stages (rHandlers r) = [] \<or> stages (rHandlers r) = [0, 3] \<or>
      stages (rHandlers r) = [0, 1, 3] \<or> stages (rHandlers r) = [0, 1, 2, 3]"
      using stages_routeTable [OF r] .
    show "\<forall>a c. \<exists>t zs.
        stageTrace (Events (run s' a (rHandlers r) c)) = stageTrace (Events c) @ t \<and>
        stages (rHandlers r) = t @ zs"
      using seg [OF r] by blast
    show "\<forall>a c pre post. rHandlers r = pre @ post \<longrightarrow> Aborted (run s' a pre c) \<longrightarrow>
        run s' a (rHandlers r) c = run s' a pre c \<and>
        (\<exists>t zs. stageTrace (Events (run s' a (rHandlers r) c)) = stageTrace (Events c) @ t \<and>
                 stages pre = t @ zs)"
      using cut [OF r] by blast
  qed (use gates in blast)+
qed

lemma run_example_nodes_post_a:
  "Events (run (exampleServer\<lparr>router := e\<rparr>) exampleAPI
     [RequestIDHandler, LoggerHandler, AuthHandler, WrapperWithLock, NodeQuotaHandler, Wrapper ''CreateNode'']
     (NewContext (exampleRequest POST ''/v1/nodes'' ''token-a'') Map.empty \<lparr>NodeCollector = Some 1\<rparr>))
    = [Authenticate, LockAcquire ''ns-a_/v1/nodes'', QuotaCheck ''ns-a'' (Some 1),
       ApiCall ''CreateNode'', LockRelease ''ns-a_/v1/nodes'']"
  by (simp add: NewContext_def body_defs Let_def Auth_exampleServer exampleAPI_simps
      GetNamespace_def GetString_def lockName_def exampleRequest_simps)

lemma run_example_nodes_post_b:
  "Aborted (run (exampleServer\<lparr>router := e\<rparr>) exampleAPI
     [RequestIDHandler, LoggerHandler, AuthHandler, WrapperWithLock, NodeQuotaHandler]
     (NewContext (exampleRequest POST ''/v1/nodes'' ''token-b'') Map.empty \<lparr>NodeCollector = Some 1\<rparr>))"
  "Events (run (exampleServer\<lparr>router := e\<rparr>) exampleAPI
     [RequestIDHandler, LoggerHandler, AuthHandler, WrapperWithLock, NodeQuotaHandler]
     (NewContext (exampleRequest POST ''/v1/nodes'' ''token-b'') Map.empty \<lparr>NodeCollector = Some 1\<rparr>))
   = [Authenticate, LockAcquire ''ns-b_/v1/nodes'', QuotaCheck ''ns-b'' (Some 1),
      LockRelease ''ns-b_/v1/nodes'']"
  by (simp_all add: NewContext_def body_defs Let_def Auth_exampleServer exampleAPI_simps
      GetNamespace_def GetString_def lockName_def exampleRequest_simps)


text \<open>
  C6 on the example server: the node-creation route has all four stages; for the tenant
  over quota the chain stops at the quota check, for the other the creation handler runs
  between the quota check and the release of the lock.
\<close>

theorem pipeline_order_witness:
  "\<exists>s' g' r. router exampleServer = gin_New \<and>
     InitRoute exampleServer initGlobals = Inr (s', g') \<and>
     r \<in> set (trees (router s')) \<and> rMethod r = POST \<and> rPath r = ''/v1/nodes'' \<and>
     stages (rHandlers r) = [0, 1, 2, 3] \<and>
     rHandlers r =
       [RequestIDHandler, LoggerHandler, AuthHandler, WrapperWithLock, NodeQuotaHandler] @
       [Wrapper ''CreateNode''] \<and>
     Aborted (run s' exampleAPI
       [RequestIDHandler, LoggerHandler, AuthHandler, WrapperWithLock, NodeQuotaHandler]
       (NewContext (exampleRequest POST ''/v1/nodes'' ''token-b'') Map.empty g')) \<and>
     Events (run s' exampleAPI (rHandlers r)
       (NewContext (exampleRequest POST ''/v1/nodes'' ''token-b'') Map.empty g')) =
       [Authenticate, LockAcquire ''ns-b_/v1/nodes'', QuotaCheck ''ns-b'' (Some 1),
        LockRelease ''ns-b_/v1/nodes''] \<and>
     Events (run s' exampleAPI (rHandlers r)
       (NewContext (exampleRequest POST ''/v1/nodes'' ''token-a'') Map.empty g')) =
       [Authenticate, LockAcquire ''ns-a_/v1/nodes'', QuotaCheck ''ns-a'' (Some 1),
        ApiCall ''CreateNode'', LockRelease ''ns-a_/v1/nodes''] \<and>
     stageTrace (Events (run s' exampleAPI (rHandlers r)
       (NewContext (exampleRequest POST ''/v1/nodes'' ''token-a'') Map.empty g'))) = [0, 1, 2, 3] \<and>
     stageTrace (Events (run s' exampleAPI (rHandlers r)
       (NewContext (exampleRequest POST ''/v1/nodes'' ''token-b'') Map.empty g'))) = [0, 1, 2]"
proof -
  obtain e where init: "InitRoute exampleServer initGlobals =
         Inr (exampleServer\<lparr>router := e\<rparr>, \<lparr>NodeCollector = Some (1::nat)\<rparr>)"
    and trees: "trees e = routeTable exampleServer"
    using exampleServer_init by blast
  define r where "r = \<lparr>rMethod = POST, rPath = ''/v1/nodes'',
    rHandlers = groupHandlers exampleServer @ [WrapperWithLock, NodeQuotaHandler, Wrapper ''CreateNode'']\<rparr>"
  have mem: "r \<in> set (trees (router (exampleServer\<lparr>router := e\<rparr>)))"
    by (simp add: trees r_def nodes_post_route)
  have r: "rPath r = ''/v1/nodes''" "rMethod r = POST"
    "rHandlers r = [RequestIDHandler, LoggerHandler, AuthHandler, WrapperWithLock, NodeQuotaHandler] @
       [Wrapper ''CreateNode'']"
    by (simp_all add: r_def groupHandlers_exampleServer)
  have st: "stages (rHandlers r) = [0, 1, 2, 3]"
    by (simp add: r stages_def)
  note ab = run_example_nodes_post_b(1) [of e]
  from pipeline_order [OF router_exampleServer init] mem
  have "\<forall>a c pre post. rHandlers r = pre @ post \<longrightarrow>
      Aborted (run (exampleServer\<lparr>router := e\<rparr>) a pre c) \<longrightarrow>
      run (exampleServer\<lparr>router := e\<rparr>) a (rHandlers r) c = run (exampleServer\<lparr>router := e\<rparr>) a pre c"
    by blast
  from this [rule_format, OF r(3) ab]
  have evb: "Events (run (exampleServer\<lparr>router := e\<rparr>) exampleAPI (rHandlers r)
       (NewContext (exampleRequest POST ''/v1/nodes'' ''token-b'') Map.empty \<lparr>NodeCollector = Some 1\<rparr>)) =
       [Authenticate, LockAcquire ''ns-b_/v1/nodes'', QuotaCheck ''ns-b'' (Some 1),
        LockRelease ''ns-b_/v1/nodes'']"
    by (simp only: run_example_nodes_post_b(2))
  have eva: "Events (run (exampleServer\<lparr>router := e\<rparr>) exampleAPI (rHandlers r)
       (NewContext (exampleRequest POST ''/v1/nodes'' ''token-a'') Map.empty \<lparr>NodeCollector = Some 1\<rparr>)) =
       [Authenticate, LockAcquire ''ns-a_/v1/nodes'', QuotaCheck ''ns-a'' (Some 1),
        ApiCall ''CreateNode'', LockRelease ''ns-a_/v1/nodes'']"
    using run_example_nodes_post_a [of e] by (simp add: r)
  have "stageTrace (Events (run (exampleServer\<lparr>router := e\<rparr>) exampleAPI (rHandlers r)
       (NewContext (exampleRequest POST ''/v1/nodes'' ''token-a'') Map.empty \<lparr>NodeCollector = Some 1\<rparr>))) = [0, 1, 2, 3]"
    "stageTrace (Events (run (exampleServer\<lparr>router := e\<rparr>) exampleAPI (rHandlers r)
       (NewContext (exampleRequest POST ''/v1/nodes'' ''token-b'') Map.empty \<lparr>NodeCollector = Some 1\<rparr>))) = [0, 1, 2]"
    unfolding eva evb by (simp_all add: stageTrace_simps)
  with eva evb show ?thesis
    using router_exampleServer init mem r st ab by blast
qed

subsection \<open>The package-level collector\<close>

lemma Globals_cache:
  assumes "\<And>c. Globals (f c) = Globals c"
  shows "Globals (WCacheByRequestURI_body dur cc f c) = Globals c"
  using assms [of "c\<lparr>Events := Events c @ [CacheGet (cacheKey cc c)]\<rparr>"]
  by (simp add: WCacheByRequestURI_body_def Let_def
      split: option.splits envelope.splits)

lemma Globals_serve: "Globals (serve s a h c) = Globals c"
proof (induction h arbitrary: c)
  case (WCacheByRequestURI dur h cc)
  then show ?case by (simp add: Globals_cache)
qed (simp_all add: body_defs Let_def split: option.splits sum.splits)

lemma Globals_run: "Globals (run s a hs c) = Globals c"
proof (induction hs arbitrary: c)
  case Nil
  show ?case by simp
next
  case (Cons h hs)
  show ?case
  proof (cases "Aborted c")
    case True
    then show ?thesis by simp
  next
    case False
    show ?thesis
    proof (cases "h = WrapperWithLock")
      case True
      with False Cons.IH [of "c\<lparr>Events := Events c @ [LockAcquire (lockName c)]\<rparr>"]
      show ?thesis
        by (simp add: WrapperWithLock_body_def PopulateFailedResponse_def Let_def split: option.splits)
    next
      case nl: False
      have "run s a (h # hs) c = run s a hs (serve s a h c)"
        using False nl by (cases h) simp_all
      then show ?thesis by (simp add: Cons.IH Globals_serve)
    qed
  qed
qed

lemma Events_NodeQuotaHandler:
  "Events (serve s a NodeQuotaHandler c) =
   Events c @ [QuotaCheck (GetNamespace c) (NodeCollector (Globals c))]"
  by (simp add: NodeQuotaHandler_body_def PopulateFailedResponse_def Let_def split: option.splits)

lemma NewAdminServer_Inr:
  assumes "NewAdminServer nA nL nQ config = Inr s"
  shows "api s = None \<and> router s = gin_New \<and> ExternalHandlers s = [] \<and> cfg s = config"
  using assms
  by (auto simp: NewAdminServer_def split: sum.splits option.splits)

text \<open>
  C10: the collector a quota check uses is the package variable \<open>NodeCollector\<close>, whatever
  the server. A server from \<open>NewAdminServer\<close> has no api; with the package variables in
  their initial state a quota check of server A uses the nil collector. \<open>InitRoute\<close> of
  A assigns the collector of A's api, and a later \<open>InitRoute\<close> of another server B
  replaces it, after which a quota check of A uses B's collector. Running a chain never
  changes the package variables.
\<close>

theorem node_collector_global:
  assumes "NewAdminServer nA nL nQ cfgA = Inr sA0" and "NewAdminServer nA' nL' nQ' cfgB = Inr sB0"
    and "sA = SetAPI aA sA0" and "sB = SetAPI aB sB0"
  shows "api sA0 = None \<and>
     (\<forall>g. InitRoute sA0 g = Inl NilPointerDereference) \<and>
     Events (serve sA aA NodeQuotaHandler (NewContext req store initGlobals)) =
       [QuotaCheck [] None] \<and>
     (\<exists>sA' sB'.
        InitRoute sA initGlobals = Inr (sA', \<lparr>NodeCollector = NodeNumberCollector aA\<rparr>) \<and>
        api sA' = Some aA \<and>
        Events (serve sA' aA NodeQuotaHandler
                 (NewContext req store \<lparr>NodeCollector = NodeNumberCollector aA\<rparr>)) =
          [QuotaCheck [] (NodeNumberCollector aA)] \<and>
        InitRoute sB \<lparr>NodeCollector = NodeNumberCollector aA\<rparr> =
          Inr (sB', \<lparr>NodeCollector = NodeNumberCollector aB\<rparr>) \<and>
        Events (serve sA' aA NodeQuotaHandler
                 (NewContext req store \<lparr>NodeCollector = NodeNumberCollector aB\<rparr>)) =
          [QuotaCheck [] (NodeNumberCollector aB)]) \<and>
     (\<forall>s a hs c. Globals (run s a hs c) = Globals c) \<and>
     (\<forall>s a c. Events (serve s a NodeQuotaHandler c) =
        Events c @ [QuotaCheck (GetNamespace c) (NodeCollector (Globals c))])"
proof -
  note A0 = NewAdminServer_Inr [OF assms(1)] and B0 = NewAdminServer_Inr [OF assms(2)]
  have A: "router sA = gin_New" "api sA = Some aA" using A0 by (simp_all add: assms(3) SetAPI_def)
  have B: "router sB = gin_New" "api sB = Some aB" using B0 by (simp_all add: assms(4) SetAPI_def)
  obtain eA where iA: "InitRoute sA initGlobals =
      Inr (sA\<lparr>router := eA\<rparr>, initGlobals\<lparr>NodeCollector := NodeNumberCollector aA\<rparr>)"
    using InitRoute_Some [OF A] by blast
  obtain eB where iB: "InitRoute sB \<lparr>NodeCollector = NodeNumberCollector aA\<rparr> =
      Inr (sB\<lparr>router := eB\<rparr>, \<lparr>NodeCollector = NodeNumberCollector aA\<rparr>\<lparr>NodeCollector := NodeNumberCollector aB\<rparr>)"
    using InitRoute_Some [OF B] by blast
  have ctx: "\<And>g::'a globals. Events (NewContext req store g) = []"
    "\<And>g::'a globals. GetNamespace (NewContext req store g) = []"
    "\<And>g::'a globals. Globals (NewContext req store g) = g"
    by (simp_all add: NewContext_def GetNamespace_def GetString_def)
  have "\<exists>sA' sB'.
        InitRoute sA initGlobals = Inr (sA', \<lparr>NodeCollector = NodeNumberCollector aA\<rparr>) \<and>
        api sA' = Some aA \<and>
        Events (serve sA' aA NodeQuotaHandler
                 (NewContext req store \<lparr>NodeCollector = NodeNumberCollector aA\<rparr>)) =
          [QuotaCheck [] (NodeNumberCollector aA)] \<and>
        InitRoute sB \<lparr>NodeCollector = NodeNumberCollector aA\<rparr> =
          Inr (sB', \<lparr>NodeCollector = NodeNumberCollector aB\<rparr>) \<and>
        Events (serve sA' aA NodeQuotaHandler
                 (NewContext req store \<lparr>NodeCollector = NodeNumberCollector aB\<rparr>)) =
          [QuotaCheck [] (NodeNumberCollector aB)]"
    apply (rule exI [of _ "sA\<lparr>router := eA\<rparr>"], rule exI [of _ "sB\<lparr>router := eB\<rparr>"])
    using iA iB A(2)
    apply (simp add: Events_NodeQuotaHandler ctx initGlobals_def del: serve.simps)
    done
  moreover have "api sA0 = None" using A0 by simp
  moreover have "\<forall>g. InitRoute sA0 g = Inl NilPointerDereference"
    using A0 by (simp add: InitRoute_None)
  moreover have "Events (serve sA aA NodeQuotaHandler (NewContext req store initGlobals)) =
       [QuotaCheck [] None]"
    by (simp add: Events_NodeQuotaHandler ctx del: serve.simps) (simp add: initGlobals_def)
  ultimately show ?thesis
    using Globals_run Events_NodeQuotaHandler by blast
qed

text \<open>C10 on two servers built from the example configuration, with collectors 1 and 2.\<close>

theorem node_collector_global_witness:
  "\<exists>sA0 sB0.
     NewAdminServer (\<lambda>c. Inr (Auth exampleServer)) (\<lambda>c. None) (\<lambda>c. None) exampleConfig = Inr sA0 \<and>
     NewAdminServer (\<lambda>c. Inr (Auth exampleServer)) (\<lambda>c. None) (\<lambda>c. None) exampleConfig = Inr sB0 \<and>
     SetAPI exampleAPI sA0 = exampleServer \<and>
     NodeNumberCollector exampleAPI = Some 1 \<and> NodeNumberCollector otherAPI = Some 2 \<and>
     Events (serve (SetAPI exampleAPI sA0) exampleAPI NodeQuotaHandler
        (NewContext (exampleRequest POST ''/v1/nodes'' ''token-a'') Map.empty initGlobals)) =
       [QuotaCheck [] None] \<and>
     (\<exists>sA' sB'.
        InitRoute (SetAPI exampleAPI sA0) initGlobals = Inr (sA', \<lparr>NodeCollector = Some 1\<rparr>) \<and>
        InitRoute (SetAPI otherAPI sB0) \<lparr>NodeCollector = Some 1\<rparr> = Inr (sB', \<lparr>NodeCollector = Some 2\<rparr>) \<and>
        Events (serve sA' exampleAPI NodeQuotaHandler
           (NewContext (exampleRequest POST ''/v1/nodes'' ''token-a'') Map.empty \<lparr>NodeCollector = Some 2\<rparr>)) =
          [QuotaCheck [] (Some 2)])"
proof -
  define s0 :: "nat AdminServer" where "s0 = exampleServer\<lparr>api := None\<rparr>"
  have new: "NewAdminServer (\<lambda>c. Inr (Auth exampleServer)) (\<lambda>c. None) (\<lambda>c. None) exampleConfig = Inr s0"
    by (simp add: NewAdminServer_def s0_def exampleServer_def)
  have set: "SetAPI exampleAPI s0 = exampleServer"
    by (simp add: SetAPI_def s0_def exampleServer_def)
  have col: "NodeNumberCollector exampleAPI = Some 1" "NodeNumberCollector otherAPI = Some 2"
    by (simp_all add: exampleAPI_def otherAPI_def)
  note th = node_collector_global [OF new new refl refl, where aA = exampleAPI and aB = otherAPI
      and req = "exampleRequest POST ''/v1/nodes'' ''token-a''" and store = Map.empty]
  from th have "Events (serve (SetAPI exampleAPI s0) exampleAPI NodeQuotaHandler
        (NewContext (exampleRequest POST ''/v1/nodes'' ''token-a'') Map.empty initGlobals)) =
       [QuotaCheck [] None]" by blast
  moreover from th have "\<exists>sA' sB'.
        InitRoute (SetAPI exampleAPI s0) initGlobals = Inr (sA', \<lparr>NodeCollector = NodeNumberCollector exampleAPI\<rparr>) \<and>
        InitRoute (SetAPI otherAPI s0) \<lparr>NodeCollector = NodeNumberCollector exampleAPI\<rparr> =
          Inr (sB', \<lparr>NodeCollector = NodeNumberCollector otherAPI\<rparr>) \<and>
        Events (serve sA' exampleAPI NodeQuotaHandler
           (NewContext (exampleRequest POST ''/v1/nodes'' ''token-a'') Map.empty
              \<lparr>NodeCollector = NodeNumberCollector otherAPI\<rparr>)) =
          [QuotaCheck [] (NodeNumberCollector otherAPI)]" by blast
  ultimately show ?thesis
    using new set col by (auto simp del: serve.simps)
qed

end
